theory Spec2Isabelle
  imports Complex_Main
begin

section \<open>Strings\<close>

text \<open>
  A JavaScript string is modelled as a \<open>string\<close> (a list of bytes, UTF-8). The
  source only inspects ASCII characters (white space, \<open>#\<close>, \<open>@\<close>, \<open>/\<close>, the letters of
  \<open>bot\<close>); white space is the ASCII white space of the regular expression class
  \<open>\s\<close>, and \<open>toLowerCase\<close> maps the ASCII capitals. The code points beyond ASCII
  that JavaScript also treats as white space are outside the model.
\<close>

definition isSpace :: "char \<Rightarrow> bool" where
  "isSpace c = (c \<in> set [CHR 0x09, CHR 0x0A, CHR 0x0B, CHR 0x0C, CHR 0x0D, CHR 0x20])"

definition trim :: "string \<Rightarrow> string" where
  "trim s = rev (dropWhile isSpace (rev (dropWhile isSpace s)))"

definition toLowerChar :: "char \<Rightarrow> char" where
  "toLowerChar c =
     (case map_of (zip ''ABCDEFGHIJKLMNOPQRSTUVWXYZ'' ''abcdefghijklmnopqrstuvwxyz'') c of
        None \<Rightarrow> c
      | Some l \<Rightarrow> l)"

definition toLowerCase :: "string \<Rightarrow> string" where
  "toLowerCase s = map toLowerChar s"

definition startsWith :: "string \<Rightarrow> string \<Rightarrow> bool" where
  "startsWith s p = (take (length p) s = p)"

definition endsWith :: "string \<Rightarrow> string \<Rightarrow> bool" where
  "endsWith s p = (length p \<le> length s \<and> drop (length s - length p) s = p)"

fun includesStr :: "string \<Rightarrow> string \<Rightarrow> bool" where
  "includesStr [] sub = (sub = [])"
| "includesStr (c # cs) sub = (startsWith (c # cs) sub \<or> includesStr cs sub)"

text \<open>
  \<open>s.split(re)\<close> for a regular expression \<open>re\<close> that matches the non-empty runs of
  the characters in a class: \<open>/\s+/\<close> and the \<open>/\/+/\<close> of the path matcher.
\<close>

function splitRuns :: "(char \<Rightarrow> bool) \<Rightarrow> string \<Rightarrow> string list" where
  "splitRuns sep [] = [[]]"
| "splitRuns sep (c # cs) =
     (if sep c then [] # splitRuns sep (dropWhile sep cs)
      else (case splitRuns sep cs of [] \<Rightarrow> [[c]] | w # ws \<Rightarrow> (c # w) # ws))"
  by pat_completeness auto
termination
  by (relation "measure (\<lambda>(sep, s). length s)")
     (auto simp: length_dropWhile_le less_Suc_eq_le)

text \<open>\<open>text.split(/\r?\n/)\<close>: a line ends at a line feed, with the carriage return before it.\<close>

fun splitLines :: "string \<Rightarrow> string list" where
  "splitLines [] = [[]]"
| "splitLines (c # cs) =
     (if c = CHR 0x0D \<and> take 1 cs = [CHR 0x0A] then [] # splitLines (drop 1 cs)
      else if c = CHR 0x0A then [] # splitLines cs
      else (case splitLines cs of [] \<Rightarrow> [[c]] | l # ls \<Rightarrow> (c # l) # ls))"

text \<open>
  The decimal rendering of an integer, which is what JavaScript prints for every
  integral number below \<open>10\<^sup>2\<^sup>1\<close> in absolute value.
\<close>

function showNat :: "nat \<Rightarrow> string" where
  "showNat n =
     (if n < 10 then [''0123456789'' ! n]
      else showNat (n div 10) @ [''0123456789'' ! (n mod 10)])"
  by pat_completeness auto
termination
  by (relation "measure id") auto

declare showNat.simps [simp del]

definition showInt :: "int \<Rightarrow> string" where
  "showInt i = (if i < 0 then CHR ''-'' # showNat (nat (- i)) else showNat (nat i))"

section \<open>Utilities\<close>

definition MARKER :: string where
  "MARKER = ''<!-- reviewer-suggester:v0 -->''"

definition isBotLogin :: "string \<Rightarrow> bool" where
  "isBotLogin login =
     (if login = [] then True
      else (let l = toLowerCase login in
              endsWith login ''[bot]'' \<or> includesStr l ''bot'' \<or> l = ''github-actions''))"

definition clamp :: "int \<Rightarrow> int \<Rightarrow> int \<Rightarrow> int" where
  "clamp n a b = max a (min b n)"

text \<open>
  \<open>median\<close>: \<open>None\<close> is the source's \<open>null\<close>. The numbers are the reals (the rounding
  of floating point arithmetic is not modelled).
\<close>

definition median :: "real list \<Rightarrow> real option" where
  "median arr =
     (if length arr = 0 then None
      else (let s = sort arr; mid = length s div 2 in
              if length s mod 2 \<noteq> 0 then Some (s ! mid)
              else Some ((s ! (mid - 1) + s ! mid) / 2)))"

section \<open>The path matcher\<close>

text \<open>
  \<open>minimatch(path, pattern, { dot: true, nocase: false, matchBase: true })\<close> is a
  call into the minimatch library, a dependency whose code is not part of the
  repository. The functions of the repository take the matcher as their first
  argument \<open>mm\<close> (path first, pattern second, the three options fixed), and what is
  proved about them for every \<open>mm\<close> holds for the library too.

  The model \<open>minimatch\<close> below only instantiates \<open>mm\<close> in the examples. It is
  written from the documentation of the library, not from code of the repository,
  and covers the patterns made of literal characters, \<open>?\<close>, \<open>*\<close> and the path
  portion \<open>**\<close> (no braces, character classes, extended globs, escapes or leading
  \<open>!\<close>). The library splits the pattern and the path at their slashes and compares
  them portion by portion; with \<open>matchBase\<close> a pattern of one portion is compared
  with the last non-empty portion of the path only; with \<open>dot\<close> a leading dot is an
  ordinary character, the portions \<open>.\<close> and \<open>..\<close> apart.
\<close>

fun globPart :: "string \<Rightarrow> string \<Rightarrow> bool" where
  "globPart [] [] = True"
| "globPart [] (c # cs) = False"
| "globPart (p # ps) [] = (p = CHR ''*'' \<and> globPart ps [])"
| "globPart (p # ps) (c # cs) =
     (if p = CHR ''*'' then globPart ps (c # cs) \<or> globPart (p # ps) cs
      else (p = CHR ''?'' \<or> p = c) \<and> globPart ps cs)"

definition hasMagic :: "string \<Rightarrow> bool" where
  "hasMagic p = (CHR ''*'' \<in> set p \<or> CHR ''?'' \<in> set p)"

definition isDots :: "string \<Rightarrow> bool" where
  "isDots f = (f = ''.'' \<or> f = ''..'')"

definition partMatch :: "string \<Rightarrow> string \<Rightarrow> bool" where
  "partMatch p f =
     (if hasMagic p
      then f \<noteq> [] \<and> (take 1 p = ''.'' \<or> \<not> isDots f) \<and> globPart p f
      else f = p)"

fun matchOne :: "string list \<Rightarrow> string list \<Rightarrow> bool"
  and swallow :: "string list \<Rightarrow> string list \<Rightarrow> bool" where
  "matchOne [] [] = True"
| "matchOne [] (p # ps) = False"
| "matchOne (f # fs) [] = (fs = [] \<and> f = [])"
| "matchOne (f # fs) (p # ps) =
     (if p = ''**''
      then (if ps = [] then list_all (\<lambda>x. \<not> isDots x) (f # fs) else swallow (f # fs) ps)
      else partMatch p f \<and> matchOne fs ps)"
| "swallow [] ps = False"
| "swallow (f # fs) ps = (matchOne (f # fs) ps \<or> (\<not> isDots f \<and> swallow fs ps))"

definition minimatch :: "string \<Rightarrow> string \<Rightarrow> bool" where
  "minimatch p pattern =
     (if take 1 pattern = ''#'' then False
      else if trim pattern = [] then p = []
      else (let pat = splitRuns (\<lambda>c. c = CHR ''/'') pattern;
                f = splitRuns (\<lambda>c. c = CHR ''/'') p;
                filename = (case dropWhile (\<lambda>x. x = []) (rev f) of [] \<Rightarrow> [] | x # _ \<Rightarrow> x)
            in matchOne (if length pat = 1 then [filename] else f) pat))"

section \<open>CODEOWNERS support\<close>

record rule =
  pattern :: string
  owners :: "string list"

text \<open>\<open>line.split(/\s+#/)[0]\<close>: the line up to the first white space that runs up to a \<open>#\<close>.\<close>

fun stripInline :: "string \<Rightarrow> string" where
  "stripInline [] = []"
| "stripInline (c # cs) =
     (if isSpace c \<and> take 1 (dropWhile isSpace cs) = ''#'' then []
      else c # stripInline cs)"

definition parseLine :: "string \<Rightarrow> rule list" where
  "parseLine raw =
     (let line = trim raw in
      if line = [] \<or> startsWith line ''#'' then []
      else (let noInline = trim (stripInline line) in
            if noInline = [] then []
            else (let parts = filter (\<lambda>w. w \<noteq> []) (splitRuns isSpace noInline) in
                  if length parts < 2 then []
                  else (let ows = filter (\<lambda>w. w \<noteq> [] \<and> \<not> isBotLogin w)
                                    (map (\<lambda>w. trim (if startsWith w ''@'' then drop 1 w else w))
                                         (drop 1 parts)) in
                        if length ows = 0 then []
                        else [\<lparr>pattern = hd parts, owners = ows\<rparr>]))))"

text \<open>\<open>parseCodeowners\<close>: the text is \<open>None\<close> when no rule file was found.\<close>

definition parseCodeowners :: "string option \<Rightarrow> rule list" where
  "parseCodeowners content =
     (case content of None \<Rightarrow> []
      | Some t \<Rightarrow> if t = [] then [] else concat (map parseLine (splitLines t)))"

definition normalizeCodeownersPattern :: "string \<Rightarrow> string" where
  "normalizeCodeownersPattern pat =
     (if startsWith pat ''/'' then drop 1 pat else ''**/'' @ pat)"

definition ownersForFile :: "(string \<Rightarrow> string \<Rightarrow> bool) \<Rightarrow> rule list \<Rightarrow> string \<Rightarrow> string list" where
  "ownersForFile mm codeownersRules filePath =
     (if length codeownersRules = 0 then []
      else fold (\<lambda>r matchedOwners.
                   if mm filePath (normalizeCodeownersPattern (pattern r))
                   then owners r else matchedOwners)
                codeownersRules [])"

section \<open>Insertion-ordered maps\<close>

text \<open>
  A JavaScript \<open>Map\<close> keeps its keys in the order of their first insertion;
  \<open>set\<close> on a key that is present replaces the value where it stands. It is
  modelled as an association list, \<open>get\<close> as \<open>map_of\<close>.
\<close>

fun mapSet :: "(string \<times> 'v) list \<Rightarrow> string \<Rightarrow> 'v \<Rightarrow> (string \<times> 'v) list" where
  "mapSet [] k v = [(k, v)]"
| "mapSet ((k', v') # m) k v = (if k' = k then (k, v) # m else (k', v') # mapSet m k v)"

section \<open>Review latency scoring\<close>

text \<open>
  A \<open>Date\<close> is its time value in milliseconds, \<open>None\<close> for an invalid date (whose
  time value is \<open>NaN\<close>, so that every comparison with it is false). The responses of
  the two requests of \<open>computeReviewerLatencyHours\<close> are its inputs: the closed
  pull requests, each with its parsed \<open>created_at\<close> and with the reviews that
  \<open>listReviews\<close> returned for it (\<open>None\<close> when the request failed); a review has
  the login of its user, when there is one, and its parsed \<open>submitted_at\<close>, when the
  field is set.
\<close>

type_synonym jsdate = "int option"

record review =
  user_login :: "string option"
  submitted_at :: "jsdate option"

record pull =
  merged_at :: "string option"
  closed_at :: "string option"
  created_at :: jsdate
  reviews :: "review list option"

definition truthy :: "string option \<Rightarrow> bool" where
  "truthy x = (case x of None \<Rightarrow> False | Some s \<Rightarrow> s \<noteq> [])"

definition dateLt :: "jsdate \<Rightarrow> jsdate \<Rightarrow> bool" where
  "dateLt a b = (case a of None \<Rightarrow> False
                 | Some x \<Rightarrow> (case b of None \<Rightarrow> False | Some y \<Rightarrow> x < y))"

text \<open>\<open>(t.getTime() - createdAt.getTime()) / (1000 * 60 * 60)\<close>, \<open>None\<close> when it is not finite.\<close>

definition hoursBetween :: "jsdate \<Rightarrow> jsdate \<Rightarrow> real option" where
  "hoursBetween t createdAt =
     (case t of None \<Rightarrow> None
      | Some x \<Rightarrow> (case createdAt of None \<Rightarrow> None
                   | Some y \<Rightarrow> Some (real_of_int (x - y) / (1000 * 60 * 60))))"

definition firstReview :: "(string \<times> jsdate) list \<Rightarrow> review \<Rightarrow> (string \<times> jsdate) list" where
  "firstReview firstByUser r =
     (case user_login r of None \<Rightarrow> firstByUser
      | Some l \<Rightarrow>
          if l = [] \<or> isBotLogin l then firstByUser
          else (case submitted_at r of None \<Rightarrow> firstByUser
                | Some t \<Rightarrow>
                    (case map_of firstByUser l of
                       None \<Rightarrow> mapSet firstByUser l t
                     | Some existing \<Rightarrow>
                         if dateLt t existing then mapSet firstByUser l t else firstByUser)))"

definition addSample ::
  "jsdate \<Rightarrow> string \<times> jsdate \<Rightarrow> (string \<times> real list) list \<Rightarrow> (string \<times> real list) list" where
  "addSample createdAt e perReviewer =
     (case hoursBetween (snd e) createdAt of None \<Rightarrow> perReviewer
      | Some hours \<Rightarrow>
          if hours < 0 then perReviewer
          else mapSet perReviewer (fst e)
                 ((case map_of perReviewer (fst e) of None \<Rightarrow> [] | Some arr \<Rightarrow> arr) @ [hours]))"

definition samplePull ::
  "jsdate \<Rightarrow> pull \<Rightarrow> (string \<times> real list) list \<Rightarrow> (string \<times> real list) list" where
  "samplePull since pr perReviewer =
     (if \<not> truthy (merged_at pr) \<and> \<not> truthy (closed_at pr) then perReviewer
      else if dateLt (created_at pr) since then perReviewer
      else (case reviews pr of None \<Rightarrow> perReviewer
            | Some rs \<Rightarrow>
                fold (addSample (created_at pr))
                     (fold (\<lambda>r firstByUser. firstReview firstByUser r) rs [])
                     perReviewer))"

definition perReviewerSamples :: "jsdate \<Rightarrow> pull list \<Rightarrow> (string \<times> real list) list" where
  "perReviewerSamples since pulls = fold (samplePull since) pulls []"

definition computeReviewerLatencyHours :: "jsdate \<Rightarrow> pull list \<Rightarrow> (string \<times> real) list" where
  "computeReviewerLatencyHours since pulls =
     fold (\<lambda>e out. case median (snd e) of None \<Rightarrow> out | Some m \<Rightarrow> mapSet out (fst e) m)
          (perReviewerSamples since pulls) []"

definition latencyBonusHours :: "real option \<Rightarrow> real" where
  "latencyBonusHours medianHours =
     (case medianHours of None \<Rightarrow> 0
      | Some h \<Rightarrow>
          if h \<le> 4 then 6
          else if h \<le> 12 then 4
          else if h \<le> 24 then 2
          else if h \<le> 48 then 1
          else 0)"

section \<open>Ranking\<close>

record fileAuthor =
  path :: string
  authors :: "string list"

record weights =
  commitHistory :: real
  codeowners :: real
  latency :: real

record candidate =
  login :: string
  score :: real
  reasons :: "string list"

text \<open>
  The two maps of \<open>rankCandidates\<close>: \<open>scores\<close>, and \<open>reasons\<close> (here \<open>reasonSets\<close>),
  whose values are insertion-ordered sets.
\<close>

record rankState =
  scores :: "(string \<times> real) list"
  reasonSets :: "(string \<times> string list) list"

definition setAdd :: "string list \<Rightarrow> string \<Rightarrow> string list" where
  "setAdd xs x = (if x \<in> set xs then xs else xs @ [x])"

text \<open>The PR author is \<open>None\<close> when the event carries no user login.\<close>

definition add :: "string option \<Rightarrow> string \<Rightarrow> real \<Rightarrow> string \<Rightarrow> rankState \<Rightarrow> rankState" where
  "add prAuthor l pts reason st =
     (if l = [] \<or> isBotLogin l then st
      else if Some l = prAuthor then st
      else (let sc = mapSet (scores st) l
                       ((case map_of (scores st) l of None \<Rightarrow> 0 | Some s \<Rightarrow> s) + pts);
                rs = (case map_of (reasonSets st) l of
                        None \<Rightarrow> mapSet (reasonSets st) l []
                      | Some old \<Rightarrow> reasonSets st);
                rs' = (if reason \<noteq> []
                       then mapSet rs l (setAdd (case map_of rs l of None \<Rightarrow> [] | Some old \<Rightarrow> old) reason)
                       else rs)
            in \<lparr>scores = sc, reasonSets = rs'\<rparr>))"

text \<open>\<open>Math.round\<close>: to the nearest integer, a half upwards.\<close>

definition mathRound :: "real \<Rightarrow> int" where
  "mathRound x = \<lfloor>x + 1 / 2\<rfloor>"

text \<open>The three signals, each a loop over its input that threads the two maps.\<close>

definition commitHistorySignal ::
  "string option \<Rightarrow> weights \<Rightarrow> fileAuthor list \<Rightarrow> rankState \<Rightarrow> rankState" where
  "commitHistorySignal prAuthor w fileAuthors st =
     fold (\<lambda>fa. fold (\<lambda>i. add prAuthor (authors fa ! i)
                              (real_of_int (max 1 (3 - int i)) * commitHistory w)
                              ''recent commits'')
                      [0 ..< min (length (authors fa)) 10])
          fileAuthors st"

fun awardOwners ::
  "string option \<Rightarrow> weights \<Rightarrow> string \<Rightarrow> string list \<Rightarrow> string set \<times> rankState
     \<Rightarrow> string set \<times> rankState" where
  "awardOwners prAuthor w f [] (seen, st) = (seen, st)"
| "awardOwners prAuthor w f (ow # ows) (seen, st) =
     (if ow = [] then awardOwners prAuthor w f ows (seen, st)
      else (let key = ow @ ''::'' @ f in
            if key \<in> seen then awardOwners prAuthor w f ows (seen, st)
            else awardOwners prAuthor w f ows
                   (insert key seen, add prAuthor ow (codeowners w) ''CODEOWNERS'' st)))"

fun codeownersLoop ::
  "(string \<Rightarrow> string \<Rightarrow> bool) \<Rightarrow> string option \<Rightarrow> weights \<Rightarrow> rule list \<Rightarrow> string list
     \<Rightarrow> string set \<times> rankState \<Rightarrow> string set \<times> rankState" where
  "codeownersLoop mm prAuthor w codeownersRules [] (seen, st) = (seen, st)"
| "codeownersLoop mm prAuthor w codeownersRules (f # fs) (seen, st) =
     codeownersLoop mm prAuthor w codeownersRules fs
       (awardOwners prAuthor w f (ownersForFile mm codeownersRules f) (seen, st))"

definition codeownersSignal ::
  "(string \<Rightarrow> string \<Rightarrow> bool) \<Rightarrow> string option \<Rightarrow> weights \<Rightarrow> rule list \<Rightarrow> string list
     \<Rightarrow> rankState \<Rightarrow> rankState" where
  "codeownersSignal mm prAuthor w codeownersRules changedFiles st =
     (if codeowners w > 0 \<and> length codeownersRules \<noteq> 0
      then snd (codeownersLoop mm prAuthor w codeownersRules changedFiles ({}, st))
      else st)"

definition latencyReason :: "real \<Rightarrow> string" where
  "latencyReason medHrs = ''fast reviewer (~'' @ showInt (mathRound medHrs) @ ''h median)''"

text \<open>The latency map is \<open>None\<close> when the caller passes \<open>null\<close> or \<open>undefined\<close>.\<close>

definition latencySignal ::
  "string option \<Rightarrow> weights \<Rightarrow> (string \<times> real) list option \<Rightarrow> rankState \<Rightarrow> rankState" where
  "latencySignal prAuthor w latencyMap st =
     (case latencyMap of None \<Rightarrow> st
      | Some lm \<Rightarrow>
          if latency w > 0 \<and> length lm \<noteq> 0
          then fold (\<lambda>e st'. let bonus = latencyBonusHours (Some (snd e)) * latency w in
                              if bonus > 0
                              then add prAuthor (fst e) bonus (latencyReason (snd e)) st'
                              else st')
                    lm st
          else st)"

text \<open>
  The final sort is stable (ECMAScript 2019) and descending in the score:
  \<open>sort_key\<close> with the negated score as key.
\<close>

definition ranked :: "rankState \<Rightarrow> candidate list" where
  "ranked st =
     map (\<lambda>e. \<lparr>login = fst e, score = snd e,
               reasons = (case map_of (reasonSets st) (fst e) of None \<Rightarrow> [] | Some rs \<Rightarrow> rs)\<rparr>)
         (sort_key (\<lambda>e. - snd e) (scores st))"

definition rankCandidates ::
  "(string \<Rightarrow> string \<Rightarrow> bool) \<Rightarrow> fileAuthor list \<Rightarrow> string option \<Rightarrow> rule list \<Rightarrow> string list
     \<Rightarrow> (string \<times> real) list option \<Rightarrow> weights \<Rightarrow> candidate list" where
  "rankCandidates mm fileAuthors prAuthor codeownersRules changedFiles latencyMap w =
     ranked (latencySignal prAuthor w latencyMap
              (codeownersSignal mm prAuthor w codeownersRules changedFiles
                (commitHistorySignal prAuthor w fileAuthors
                  \<lparr>scores = [], reasonSets = []\<rparr>)))"

section \<open>Confidence\<close>

definition coverageRatio ::
  "(string \<Rightarrow> string \<Rightarrow> bool) \<Rightarrow> string list \<Rightarrow> rule list \<Rightarrow> fileAuthor list \<Rightarrow> real" where
  "coverageRatio mm changedFiles codeownersRules fileAuthors =
     (let approx = (if length fileAuthors \<noteq> 0
                    then max 0 (min (length changedFiles) (max 1 (length fileAuthors)))
                    else 0);
          codeownersCovered =
            (if length codeownersRules \<noteq> 0
             then length (filter (\<lambda>f. length (ownersForFile mm codeownersRules f) \<noteq> 0)
                                 (remdups changedFiles))
             else 0);
          covered = max approx codeownersCovered
      in if length changedFiles \<noteq> 0 then real covered / real (length changedFiles) else 0)"

definition topScore :: "candidate list \<Rightarrow> real" where
  "topScore rs = (case rs of [] \<Rightarrow> 0 | r # _ \<Rightarrow> score r)"

definition secondScore :: "candidate list \<Rightarrow> real" where
  "secondScore rs = (case drop 1 rs of [] \<Rightarrow> 0 | r # _ \<Rightarrow> score r)"

definition computeConfidence ::
  "(string \<Rightarrow> string \<Rightarrow> bool) \<Rightarrow> candidate list \<Rightarrow> string list \<Rightarrow> rule list \<Rightarrow> fileAuthor list
     \<Rightarrow> string" where
  "computeConfidence mm rs changedFiles codeownersRules fileAuthors =
     (let t = topScore rs;
          second = secondScore rs;
          cov = coverageRatio mm changedFiles codeownersRules fileAuthors;
          separation = (if t > 0 then (t - second) / t else 0)
      in if t \<ge> 12 \<and> cov \<ge> 0.5 \<and> separation \<ge> 0.25 then ''High''
         else if t \<ge> 6 \<and> cov \<ge> 0.25 then ''Medium''
         else ''Low'')"

section \<open>Comment formatting\<close>

text \<open>
  \<open>lookbackDays\<close>, \<open>maxFiles\<close> and \<open>fileCount\<close> are integers. How JavaScript prints
  a score, which may be any number, is the argument \<open>showScore\<close>. The dash before the
  reasons is U+2014, three bytes in UTF-8.
\<close>

definition emDash :: string where
  "emDash = [CHR 0xE2, CHR 0x80, CHR 0x94]"

fun joinStr :: "string \<Rightarrow> string list \<Rightarrow> string" where
  "joinStr sep [] = []"
| "joinStr sep [x] = x"
| "joinStr sep (x # y # ys) = x @ sep @ joinStr sep (y # ys)"

definition formatComment ::
  "(real \<Rightarrow> string) \<Rightarrow> candidate list \<Rightarrow> int \<Rightarrow> int \<Rightarrow> int \<Rightarrow> string \<Rightarrow> string" where
  "formatComment showScore suggestions lookbackDays maxFiles fileCount confidence =
     (let header = ''### Reviewer suggestions'' @ [CHR 0x0A] @ MARKER @ [CHR 0x0A, CHR 0x0A];
          meta = ''Based on:'' @ [CHR 0x0A]
                 @ ''- commit history in the last **'' @ showInt lookbackDays @ '' days**'' @ [CHR 0x0A]
                 @ ''- changed files: **'' @ showInt (min fileCount maxFiles) @ ''**'' @ [CHR 0x0A]
                 @ ''- confidence: **'' @ confidence @ ''**'' @ [CHR 0x0A, CHR 0x0A]
      in if length suggestions = 0
         then header @ meta
              @ ''No strong candidates found (not enough history, no CODEOWNERS match, or only bots/author matched).''
              @ [CHR 0x0A]
         else (let list = joinStr [CHR 0x0A]
                            (map (\<lambda>s. let why = (if length (reasons s) \<noteq> 0
                                                  then '' '' @ emDash @ '' '' @ joinStr '', '' (reasons s)
                                                  else [])
                                       in ''- @'' @ login s @ '' (score: '' @ showScore (score s) @ '')'' @ why)
                                 suggestions);
                   note = [CHR 0x0A, CHR 0x0A]
                          @ ''_Notes: excludes PR author and bots; heuristic-based._'' @ [CHR 0x0A]
               in header @ meta @ list @ note))"

section \<open>Notions of the specification\<close>

text \<open>
  The confidence label as the specification words it: a function of the top score,
  the second score and the coverage ratio, with the thresholds tried in order.
\<close>

definition confidenceLabel :: "real \<Rightarrow> real \<Rightarrow> real \<Rightarrow> string" where
  "confidenceLabel t second coverage =
     (let separation = (if t > 0 then (t - second) / t else 0) in
      if t \<ge> 12 \<and> coverage \<ge> 0.5 \<and> separation \<ge> 0.25 then ''High''
      else if t \<ge> 6 \<and> coverage \<ge> 0.25 then ''Medium''
      else ''Low'')"

text \<open>
  The coverage as the specification words it: the fraction of the changed files that
  have a signal, where the files with a contributor signal are approximated by the
  number of contributor lists (at most the number of changed files) and the files
  with an ownership match are counted as a set.
\<close>

definition coverageFraction ::
  "(string \<Rightarrow> string \<Rightarrow> bool) \<Rightarrow> string list \<Rightarrow> rule list \<Rightarrow> fileAuthor list \<Rightarrow> real" where
  "coverageFraction mm changedFiles codeownersRules fileAuthors =
     (if changedFiles = [] then 0
      else real (max (min (length changedFiles) (length fileAuthors))
                     (card {f \<in> set changedFiles. ownersForFile mm codeownersRules f \<noteq> []}))
           / real (length changedFiles))"

text \<open>
  The valid latency samples of a reviewer as the specification words them. Only a
  pull request that is merged or closed and was not created before the window
  counts, and only a reviewer that is not bot-like. Of the reviews of the reviewer on
  that request that carry a submission time, only the earliest counts (a later one
  replaces the one kept when its time is smaller). Its hours since the
  creation of the request are a sample when they are finite and not negative.
\<close>

definition earlier :: "jsdate \<Rightarrow> jsdate option \<Rightarrow> jsdate option" where
  "earlier t e = (case e of None \<Rightarrow> Some t | Some x \<Rightarrow> if dateLt t x then Some t else Some x)"

definition earliest :: "jsdate list \<Rightarrow> jsdate option" where
  "earliest ts = fold earlier ts None"

definition reviewTimes :: "string \<Rightarrow> review list \<Rightarrow> jsdate list" where
  "reviewTimes l rs =
     concat (map (\<lambda>r. if user_login r = Some l
                       then (case submitted_at r of None \<Rightarrow> [] | Some t \<Rightarrow> [t]) else []) rs)"

definition latencySample :: "jsdate \<Rightarrow> pull \<Rightarrow> string \<Rightarrow> real option" where
  "latencySample since pr l =
     (if l = [] \<or> isBotLogin l then None
      else if \<not> (truthy (merged_at pr) \<or> truthy (closed_at pr)) then None
      else if dateLt (created_at pr) since then None
      else (case reviews pr of None \<Rightarrow> None
            | Some rs \<Rightarrow>
                (case earliest (reviewTimes l rs) of None \<Rightarrow> None
                 | Some t \<Rightarrow>
                     (case hoursBetween t (created_at pr) of None \<Rightarrow> None
                      | Some h \<Rightarrow> if 0 \<le> h then Some h else None))))"

definition latencySamples :: "jsdate \<Rightarrow> pull list \<Rightarrow> string \<Rightarrow> real list" where
  "latencySamples since pulls l =
     concat (map (\<lambda>pr. case latencySample since pr l of None \<Rightarrow> [] | Some h \<Rightarrow> [h]) pulls)"

text \<open>
  A login can be scored when it is not empty, not bot-like and not the PR author:
  the negation of the two guards of \<open>add\<close>.
\<close>

definition eligible :: "string option \<Rightarrow> string \<Rightarrow> bool" where
  "eligible prAuthor l = (l \<noteq> [] \<and> \<not> isBotLogin l \<and> Some l \<noteq> prAuthor)"

section \<open>The awards of a ranking pass\<close>

text \<open>
  The calls of \<open>add\<close> that one run of \<open>rankCandidates\<close> makes, in their order, as a
  list of awards (login, points, reason). The lists are used in the proofs only:
  \<open>rankCandidates_awards\<close> below shows that the three loops of the source make
  exactly these calls. A hit is an award without its weight.
\<close>

type_synonym award = "string \<times> real \<times> string"

definition award :: "string option \<Rightarrow> award \<Rightarrow> rankState \<Rightarrow> rankState" where
  "award prAuthor x st = add prAuthor (fst x) (fst (snd x)) (snd (snd x)) st"

definition commitHits :: "fileAuthor list \<Rightarrow> (string \<times> real) list" where
  "commitHits fileAuthors =
     concat (map (\<lambda>fa. map (\<lambda>i. (authors fa ! i, real_of_int (max 1 (3 - int i))))
                            [0 ..< min (length (authors fa)) 10])
                 fileAuthors)"

definition commitAwards :: "weights \<Rightarrow> fileAuthor list \<Rightarrow> award list" where
  "commitAwards w fileAuthors =
     map (\<lambda>h. (fst h, snd h * commitHistory w, ''recent commits'')) (commitHits fileAuthors)"

fun ownerHitsFile :: "string \<Rightarrow> string list \<Rightarrow> string set \<Rightarrow> string set \<times> string list" where
  "ownerHitsFile f [] seen = (seen, [])"
| "ownerHitsFile f (ow # ows) seen =
     (if ow = [] then ownerHitsFile f ows seen
      else (let key = ow @ ''::'' @ f in
            if key \<in> seen then ownerHitsFile f ows seen
            else (let r = ownerHitsFile f ows (insert key seen) in (fst r, ow # snd r))))"

fun ownerHits ::
  "(string \<Rightarrow> string \<Rightarrow> bool) \<Rightarrow> rule list \<Rightarrow> string list \<Rightarrow> string set \<Rightarrow> string list" where
  "ownerHits mm codeownersRules [] seen = []"
| "ownerHits mm codeownersRules (f # fs) seen =
     (let r = ownerHitsFile f (ownersForFile mm codeownersRules f) seen in
      snd r @ ownerHits mm codeownersRules fs (fst r))"

definition ownerAwards ::
  "(string \<Rightarrow> string \<Rightarrow> bool) \<Rightarrow> weights \<Rightarrow> rule list \<Rightarrow> string list \<Rightarrow> award list" where
  "ownerAwards mm w codeownersRules changedFiles =
     (if codeowners w > 0 \<and> length codeownersRules \<noteq> 0
      then map (\<lambda>ow. (ow, codeowners w, ''CODEOWNERS''))
               (ownerHits mm codeownersRules changedFiles {})
      else [])"

definition latencyHits :: "(string \<times> real) list option \<Rightarrow> (string \<times> real) list" where
  "latencyHits latencyMap =
     (case latencyMap of None \<Rightarrow> []
      | Some lm \<Rightarrow> filter (\<lambda>e. latencyBonusHours (Some (snd e)) > 0) lm)"

definition latencyAwards :: "weights \<Rightarrow> (string \<times> real) list option \<Rightarrow> award list" where
  "latencyAwards w latencyMap =
     (if latency w > 0
      then map (\<lambda>e. (fst e, latencyBonusHours (Some (snd e)) * latency w, latencyReason (snd e)))
               (latencyHits latencyMap)
      else [])"

definition awards ::
  "(string \<Rightarrow> string \<Rightarrow> bool) \<Rightarrow> fileAuthor list \<Rightarrow> rule list \<Rightarrow> string list
     \<Rightarrow> (string \<times> real) list option \<Rightarrow> weights \<Rightarrow> award list" where
  "awards mm fileAuthors codeownersRules changedFiles latencyMap w =
     commitAwards w fileAuthors
     @ ownerAwards mm w codeownersRules changedFiles
     @ latencyAwards w latencyMap"

text \<open>The points that a list of awards gives to one login.\<close>

definition pointsFor :: "string \<Rightarrow> award list \<Rightarrow> real" where
  "pointsFor l xs = sum_list (map (\<lambda>x. fst (snd x)) (filter (\<lambda>x. fst x = l) xs))"

text \<open>The two maps cut down to the logins of a set.\<close>

definition restrictSt :: "string set \<Rightarrow> rankState \<Rightarrow> rankState" where
  "restrictSt S st =
     \<lparr>scores = filter (\<lambda>e. fst e \<in> S) (scores st),
      reasonSets = filter (\<lambda>e. fst e \<in> S) (reasonSets st)\<rparr>"

section \<open>Evaluation lemmas\<close>

lemma minimatch_examples:
  "minimatch ''src/app.js'' ''src/**''"
  "\<not> minimatch ''README.md'' ''src/**''"
  "\<not> minimatch ''README.md'' ''docs/**''"
  "minimatch ''README.md'' ''**/*.md''"
  "\<not> minimatch ''src/app.js'' ''**/*.md''"
  "minimatch ''Makefile'' ''Makefile''"
  "minimatch ''sub/Makefile'' ''Makefile''"
  "minimatch ''sub/Makefile'' ''**/Makefile''"
  by (simp_all add: minimatch_def trim_def isSpace_def partMatch_def hasMagic_def isDots_def)

lemma isBotLogin_examples:
  "\<not> isBotLogin ''alice''"
  "\<not> isBotLogin ''bob''"
  "\<not> isBotLogin ''carol''"
  "\<not> isBotLogin ''dave''"
  "isBotLogin ''dependabot[bot]''"
  "isBotLogin ''RoBOT''"
  "isBotLogin ''github-actions''"
  "isBotLogin []"
  by (simp_all add: isBotLogin_def toLowerCase_def toLowerChar_def endsWith_def startsWith_def)

section \<open>Ownership resolution\<close>

lemma fold_last_match:
  "fold (\<lambda>r acc. if P r then g r else acc) rs acc =
     (case filter P rs of [] \<Rightarrow> acc | m # ms \<Rightarrow> g (last (m # ms)))"
proof (induction rs arbitrary: acc)
  case Nil
  then show ?case by simp
next
  case (Cons r rs)
  show ?case
  proof (cases "P r")
    case True
    then show ?thesis
      using Cons.IH [of "g r"] by (simp split: list.splits)
  next
    case False
    then show ?thesis
      using Cons.IH [of acc] by simp
  qed
qed

lemma ownersForFile_filter:
  "ownersForFile mm rs f =
     (case filter (\<lambda>r. mm f (normalizeCodeownersPattern (pattern r))) rs of
        [] \<Rightarrow> [] | m # ms \<Rightarrow> owners (last (m # ms)))"
  unfolding ownersForFile_def
  by (cases rs) (simp_all only: fold_last_match list.size length_0_conv filter.simps list.case if_True if_False, simp_all)

text \<open>
  Claim C1. \<open>ownersForFile\<close> returns the owners of the last rule, in the order of the
  rule list, whose normalized pattern matches the path, and replaces rather than
  merges: the result is that one rule's owner list. A rule that does not match,
  put in front of the list, changes nothing; a rule that matches, put at the end,
  makes the result its owners; when no rule matches the result is empty. This holds
  for every matcher \<open>mm\<close>.
\<close>

theorem ownersForFile_last_match_wins:
  "ownersForFile mm rs f =
     (case filter (\<lambda>r. mm f (normalizeCodeownersPattern (pattern r))) rs of
        [] \<Rightarrow> [] | m # ms \<Rightarrow> owners (last (m # ms)))
   \<and> (\<not> mm f (normalizeCodeownersPattern (pattern r1))
        \<longrightarrow> ownersForFile mm (r1 # rs) f = ownersForFile mm rs f)
   \<and> (mm f (normalizeCodeownersPattern (pattern r2))
        \<longrightarrow> ownersForFile mm (rs @ [r2]) f = owners r2)
   \<and> ((\<forall>x \<in> set rs. \<not> mm f (normalizeCodeownersPattern (pattern x)))
        \<longrightarrow> ownersForFile mm rs f = [])"
proof (intro conjI impI)
  show "ownersForFile mm rs f =
     (case filter (\<lambda>r. mm f (normalizeCodeownersPattern (pattern r))) rs of
        [] \<Rightarrow> [] | m # ms \<Rightarrow> owners (last (m # ms)))"
    by (rule ownersForFile_filter)
next
  assume "\<not> mm f (normalizeCodeownersPattern (pattern r1))"
  then show "ownersForFile mm (r1 # rs) f = ownersForFile mm rs f"
    by (simp add: ownersForFile_filter)
next
  assume "mm f (normalizeCodeownersPattern (pattern r2))"
  then show "ownersForFile mm (rs @ [r2]) f = owners r2"
    by (cases "filter (\<lambda>r. mm f (normalizeCodeownersPattern (pattern r))) rs")
       (simp_all add: ownersForFile_filter)
next
  assume "\<forall>x \<in> set rs. \<not> mm f (normalizeCodeownersPattern (pattern x))"
  then have "filter (\<lambda>r. mm f (normalizeCodeownersPattern (pattern r))) rs = []"
    by (simp add: filter_empty_conv)
  then show "ownersForFile mm rs f = []"
    by (simp add: ownersForFile_filter)
qed

theorem ownersForFile_last_match_wins_witness:
  "\<not> minimatch ''README.md'' (normalizeCodeownersPattern ''/docs/**'')
   \<and> minimatch ''README.md'' (normalizeCodeownersPattern ''*.md'')
   \<and> \<not> minimatch ''README.md'' (normalizeCodeownersPattern ''/src/**'')
   \<and> ownersForFile minimatch
        [\<lparr>pattern = ''/docs/**'', owners = [''dave'']\<rparr>, \<lparr>pattern = ''/src/**'', owners = [''alice'']\<rparr>]
        ''README.md''
      = ownersForFile minimatch [\<lparr>pattern = ''/src/**'', owners = [''alice'']\<rparr>] ''README.md''
   \<and> ownersForFile minimatch
        [\<lparr>pattern = ''/src/**'', owners = [''alice'']\<rparr>, \<lparr>pattern = ''*.md'', owners = [''bob'']\<rparr>]
        ''README.md''
      = [''bob'']
   \<and> ownersForFile minimatch [\<lparr>pattern = ''/src/**'', owners = [''alice'']\<rparr>] ''README.md'' = []"
  using ownersForFile_last_match_wins
    [of minimatch "[\<lparr>pattern = ''/src/**'', owners = [''alice'']\<rparr>]" "''README.md''"
        "\<lparr>pattern = ''/docs/**'', owners = [''dave'']\<rparr>"
        "\<lparr>pattern = ''*.md'', owners = [''bob'']\<rparr>"]
  by (simp add: normalizeCodeownersPattern_def startsWith_def minimatch_examples)

text \<open>
  Claim C3 says that a pattern with a leading slash is anchored to the root of the
  repository, so that \<open>/Makefile\<close> matches \<open>Makefile\<close> and not \<open>sub/Makefile\<close>. The
  code strips the slash and hands \<open>Makefile\<close> to the matcher with \<open>matchBase\<close> set.
  With that option the library compares a pattern without a slash with the last
  portion of the path, so it answers yes for \<open>sub/Makefile\<close>; and for every matcher
  that does, the rule \<open>/Makefile\<close> also owns \<open>sub/Makefile\<close>.
\<close>

theorem anchored_pattern_matches_basename:
  "normalizeCodeownersPattern ''/Makefile'' = ''Makefile''
   \<and> (mm ''sub/Makefile'' ''Makefile''
        \<longrightarrow> ownersForFile mm [\<lparr>pattern = ''/Makefile'', owners = [''alice'']\<rparr>] ''sub/Makefile''
            = [''alice''])"
  by (simp add: ownersForFile_def normalizeCodeownersPattern_def startsWith_def)

theorem anchored_pattern_matches_basename_witness:
  "minimatch ''sub/Makefile'' ''Makefile''
   \<and> ownersForFile minimatch [\<lparr>pattern = ''/Makefile'', owners = [''alice'']\<rparr>] ''sub/Makefile''
       = [''alice'']
   \<and> ownersForFile minimatch [\<lparr>pattern = ''/Makefile'', owners = [''alice'']\<rparr>] ''Makefile''
       = [''alice'']"
  using anchored_pattern_matches_basename [of minimatch]
  by (simp add: ownersForFile_def normalizeCodeownersPattern_def startsWith_def minimatch_examples)

section \<open>The scenario of the specification\<close>

lemma parse_scenario:
  "parseCodeowners (Some ''/src/** alice\<newline>*.md bob'') =
     [\<lparr>pattern = ''/src/**'', owners = [''alice'']\<rparr>, \<lparr>pattern = ''*.md'', owners = [''bob'']\<rparr>]"
  by (simp add: parseCodeowners_def parseLine_def trim_def isSpace_def startsWith_def isBotLogin_examples)

text \<open>
  Claim C4. The rule text \<open>/src/** alice\<close>, new line, \<open>*.md bob\<close>, the changed files
  \<open>src/app.js\<close> and \<open>README.md\<close>, no contributor and no latency signal, the weights
  1, 4 and 1 and the author \<open>carol\<close>: parsing and ranking give \<open>alice\<close> with score 4,
  then \<open>bob\<close> with score 4, in the order in which they were first seen. Each entry
  also carries its reasons, here the ownership match. The matcher is asked four
  questions, and the theorem holds for every matcher that answers them as the
  library does: \<open>src/**\<close> matches \<open>src/app.js\<close> and not \<open>README.md\<close>, \<open>**/*.md\<close>
  matches \<open>README.md\<close> and not \<open>src/app.js\<close>.
\<close>

theorem end_to_end_scenario:
  "mm ''src/app.js'' ''src/**'' \<and> \<not> mm ''README.md'' ''src/**''
   \<and> mm ''README.md'' ''**/*.md'' \<and> \<not> mm ''src/app.js'' ''**/*.md''
   \<longrightarrow>
   rankCandidates mm [] (Some ''carol'')
     (parseCodeowners (Some ''/src/** alice\<newline>*.md bob''))
     [''src/app.js'', ''README.md''] (Some [])
     \<lparr>commitHistory = 1, codeowners = 4, latency = 1\<rparr>
   = [\<lparr>login = ''alice'', score = 4, reasons = [''CODEOWNERS'']\<rparr>,
      \<lparr>login = ''bob'', score = 4, reasons = [''CODEOWNERS'']\<rparr>]"
  by (simp add: parse_scenario rankCandidates_def commitHistorySignal_def codeownersSignal_def
        latencySignal_def ranked_def ownersForFile_def normalizeCodeownersPattern_def
        startsWith_def add_def isBotLogin_examples setAdd_def)

theorem end_to_end_scenario_witness:
  "minimatch ''src/app.js'' ''src/**'' \<and> \<not> minimatch ''README.md'' ''src/**''
   \<and> minimatch ''README.md'' ''**/*.md'' \<and> \<not> minimatch ''src/app.js'' ''**/*.md''
   \<and> rankCandidates minimatch [] (Some ''carol'')
       (parseCodeowners (Some ''/src/** alice\<newline>*.md bob''))
       [''src/app.js'', ''README.md''] (Some [])
       \<lparr>commitHistory = 1, codeowners = 4, latency = 1\<rparr>
     = [\<lparr>login = ''alice'', score = 4, reasons = [''CODEOWNERS'']\<rparr>,
        \<lparr>login = ''bob'', score = 4, reasons = [''CODEOWNERS'']\<rparr>]
   \<and> map (\<lambda>c. (login c, score c))
       (rankCandidates minimatch [] (Some ''carol'')
          (parseCodeowners (Some ''/src/** alice\<newline>*.md bob''))
          [''src/app.js'', ''README.md''] (Some [])
          \<lparr>commitHistory = 1, codeowners = 4, latency = 1\<rparr>)
     = [(''alice'', 4), (''bob'', 4)]"
  using end_to_end_scenario [of minimatch]
  by (simp add: minimatch_examples)

section \<open>The latency bonus\<close>

text \<open>
  Claim C5 as stated asks for a strictly larger bonus for every smaller median. The
  bonus is a step function: the medians 1 and 2 lie on the same step.
\<close>

theorem latencyBonus_not_strict_counterexample:
  "(1::real) < 2 \<and> \<not> latencyBonusHours (Some 2) < latencyBonusHours (Some 1)"
  by (simp add: latencyBonusHours_def)

text \<open>
  Claim C5, amended. The bonus never grows with the median; it is strictly larger
  for a median at or below one of the thresholds 4, 12, 24 and 48 hours than for a
  median above that threshold; and it is zero for every median above 48 hours.
\<close>

theorem latencyBonus_step_monotone:
  "(m1 \<le> m2 \<longrightarrow> latencyBonusHours (Some m2) \<le> latencyBonusHours (Some m1))
   \<and> (t \<in> set [4, 12, 24, 48] \<and> m1 \<le> t \<and> t < m2
        \<longrightarrow> latencyBonusHours (Some m2) < latencyBonusHours (Some m1))
   \<and> (48 < m \<longrightarrow> latencyBonusHours (Some m) = 0)"
  by (auto simp: latencyBonusHours_def)

theorem latencyBonus_step_monotone_witness:
  "(3::real) \<le> 13 \<and> (12::real) \<in> set [4, 12, 24, 48] \<and> (3::real) \<le> 12 \<and> (12::real) < 13
   \<and> (48::real) < 50
   \<and> latencyBonusHours (Some 13) \<le> latencyBonusHours (Some 3)
   \<and> latencyBonusHours (Some 13) < latencyBonusHours (Some 3)
   \<and> latencyBonusHours (Some 50) = 0"
  using latencyBonus_step_monotone [of 3 13 12 50] by simp

section \<open>The confidence label\<close>

lemma ownersForFile_no_rules: "ownersForFile mm [] f = []"
  by (simp add: ownersForFile_def)

lemma owned_count:
  "length (filter P (remdups fs)) = card {f \<in> set fs. P f}"
proof -
  have "length (filter P (remdups fs)) = length (remdups (filter P fs))"
    by (simp add: remdups_filter)
  also have "\<dots> = card (set (filter P fs))"
    by (simp add: length_remdups_card_conv)
  finally show ?thesis by simp
qed

lemma max_one_length: "xs \<noteq> [] \<Longrightarrow> max (Suc 0) (length xs) = length xs"
  by (cases xs) simp_all

lemma coverageRatio_fraction:
  "coverageRatio mm changedFiles codeownersRules fileAuthors
     = coverageFraction mm changedFiles codeownersRules fileAuthors"
proof (cases "codeownersRules = []")
  case True
  then show ?thesis
    by (cases "fileAuthors = []")
       (simp_all add: coverageRatio_def coverageFraction_def ownersForFile_no_rules Let_def
          max_one_length)
next
  case False
  then show ?thesis
    by (cases "fileAuthors = []")
       (simp_all add: coverageRatio_def coverageFraction_def owned_count Let_def
          max_one_length)
qed

lemma scores_of_ranked:
  "topScore rs = (case rs of [] \<Rightarrow> 0 | r # _ \<Rightarrow> score r)"
  "secondScore rs = (case rs of [] \<Rightarrow> 0 | [r] \<Rightarrow> 0 | r # r' # _ \<Rightarrow> score r')"
  by (simp_all add: topScore_def secondScore_def split: list.splits)

text \<open>
  Claim C6. The label that \<open>computeConfidence\<close> returns is the function of the
  specification applied to the score of the first entry of the ranking (0 when there
  is none), the score of the second entry (0 when there is none) and the coverage:
  High when the top score is at least 12, the coverage at least 0.5 and the separation
  at least 0.25; otherwise Medium when the top score is at least 6 and the coverage
  at least 0.25; otherwise Low. So 14, 9 and 0.6 give High, 7, 6 and 0.3 give Medium,
  and a top score of 3 gives Low. The separation decides at 14, 12 and 0.6 (Medium),
  the coverage at 14, 9 and 0.4 (Medium), at 14, 9 and 0.2 and at 7, 6 and 0.2 (Low).
  The last six conjuncts are inputs on which the code computes such triples.
\<close>

theorem computeConfidence_thresholds:
  "computeConfidence mm rs changedFiles codeownersRules fileAuthors =
     confidenceLabel (case rs of [] \<Rightarrow> 0 | r # _ \<Rightarrow> score r)
       (case rs of [] \<Rightarrow> 0 | [r] \<Rightarrow> 0 | r # r' # _ \<Rightarrow> score r')
       (coverageFraction mm changedFiles codeownersRules fileAuthors)
   \<and> confidenceLabel 14 9 0.6 = ''High''
   \<and> confidenceLabel 7 6 0.3 = ''Medium''
   \<and> confidenceLabel 3 second coverage = ''Low''
   \<and> confidenceLabel 14 12 0.6 = ''Medium''
   \<and> confidenceLabel 14 9 0.4 = ''Medium''
   \<and> confidenceLabel 14 9 0.2 = ''Low''
   \<and> confidenceLabel 7 6 0.2 = ''Low''
   \<and> computeConfidence mm
        [\<lparr>login = ''alice'', score = 14, reasons = []\<rparr>, \<lparr>login = ''bob'', score = 9, reasons = []\<rparr>]
        [''a'', ''b'', ''c'', ''d'', ''e''] []
        [\<lparr>path = ''a'', authors = [''alice'']\<rparr>, \<lparr>path = ''b'', authors = [''alice'']\<rparr>,
         \<lparr>path = ''c'', authors = [''bob'']\<rparr>] = ''High''
   \<and> computeConfidence mm
        [\<lparr>login = ''alice'', score = 14, reasons = []\<rparr>, \<lparr>login = ''bob'', score = 12, reasons = []\<rparr>]
        [''a'', ''b'', ''c'', ''d'', ''e''] []
        [\<lparr>path = ''a'', authors = [''alice'']\<rparr>, \<lparr>path = ''b'', authors = [''alice'']\<rparr>,
         \<lparr>path = ''c'', authors = [''bob'']\<rparr>] = ''Medium''
   \<and> computeConfidence mm
        [\<lparr>login = ''alice'', score = 14, reasons = []\<rparr>, \<lparr>login = ''bob'', score = 9, reasons = []\<rparr>]
        [''a'', ''b'', ''c'', ''d'', ''e''] []
        [\<lparr>path = ''a'', authors = [''alice'']\<rparr>, \<lparr>path = ''b'', authors = [''alice'']\<rparr>] = ''Medium''
   \<and> computeConfidence mm
        [\<lparr>login = ''alice'', score = 7, reasons = []\<rparr>, \<lparr>login = ''bob'', score = 6, reasons = []\<rparr>]
        [''a'', ''b'', ''c'', ''d'', ''e'', ''f'', ''g'', ''h'', ''i'', ''j''] []
        [\<lparr>path = ''a'', authors = [''alice'']\<rparr>, \<lparr>path = ''b'', authors = [''alice'']\<rparr>,
         \<lparr>path = ''c'', authors = [''bob'']\<rparr>] = ''Medium''
   \<and> computeConfidence mm
        [\<lparr>login = ''alice'', score = 7, reasons = []\<rparr>, \<lparr>login = ''bob'', score = 6, reasons = []\<rparr>]
        [''a'', ''b'', ''c'', ''d'', ''e'', ''f'', ''g'', ''h'', ''i'', ''j''] []
        [\<lparr>path = ''a'', authors = [''alice'']\<rparr>, \<lparr>path = ''b'', authors = [''alice'']\<rparr>] = ''Low''
   \<and> computeConfidence mm [\<lparr>login = ''alice'', score = 3, reasons = []\<rparr>]
        changedFiles codeownersRules fileAuthors = ''Low''"
proof -
  have general: "computeConfidence mm rs changedFiles codeownersRules fileAuthors =
     confidenceLabel (case rs of [] \<Rightarrow> 0 | r # _ \<Rightarrow> score r)
       (case rs of [] \<Rightarrow> 0 | [r] \<Rightarrow> 0 | r # r' # _ \<Rightarrow> score r')
       (coverageFraction mm changedFiles codeownersRules fileAuthors)" for rs changedFiles codeownersRules fileAuthors
    unfolding computeConfidence_def confidenceLabel_def Let_def scores_of_ranked
      coverageRatio_fraction
    by (rule refl)
  have labels: "confidenceLabel 14 9 0.6 = ''High''" "confidenceLabel 7 6 0.3 = ''Medium''"
    "confidenceLabel 3 second coverage = ''Low''" "confidenceLabel 14 12 0.6 = ''Medium''"
    "confidenceLabel 14 9 0.4 = ''Medium''" "confidenceLabel 14 9 0.2 = ''Low''"
    "confidenceLabel 7 6 0.2 = ''Low''"
    by (simp_all add: confidenceLabel_def)
  have runs:
   "computeConfidence mm
        [\<lparr>login = ''alice'', score = 14, reasons = []\<rparr>, \<lparr>login = ''bob'', score = 9, reasons = []\<rparr>]
        [''a'', ''b'', ''c'', ''d'', ''e''] []
        [\<lparr>path = ''a'', authors = [''alice'']\<rparr>, \<lparr>path = ''b'', authors = [''alice'']\<rparr>,
         \<lparr>path = ''c'', authors = [''bob'']\<rparr>] = ''High''"
   "computeConfidence mm
        [\<lparr>login = ''alice'', score = 14, reasons = []\<rparr>, \<lparr>login = ''bob'', score = 12, reasons = []\<rparr>]
        [''a'', ''b'', ''c'', ''d'', ''e''] []
        [\<lparr>path = ''a'', authors = [''alice'']\<rparr>, \<lparr>path = ''b'', authors = [''alice'']\<rparr>,
         \<lparr>path = ''c'', authors = [''bob'']\<rparr>] = ''Medium''"
   "computeConfidence mm
        [\<lparr>login = ''alice'', score = 14, reasons = []\<rparr>, \<lparr>login = ''bob'', score = 9, reasons = []\<rparr>]
        [''a'', ''b'', ''c'', ''d'', ''e''] []
        [\<lparr>path = ''a'', authors = [''alice'']\<rparr>, \<lparr>path = ''b'', authors = [''alice'']\<rparr>] = ''Medium''"
   "computeConfidence mm
        [\<lparr>login = ''alice'', score = 7, reasons = []\<rparr>, \<lparr>login = ''bob'', score = 6, reasons = []\<rparr>]
        [''a'', ''b'', ''c'', ''d'', ''e'', ''f'', ''g'', ''h'', ''i'', ''j''] []
        [\<lparr>path = ''a'', authors = [''alice'']\<rparr>, \<lparr>path = ''b'', authors = [''alice'']\<rparr>,
         \<lparr>path = ''c'', authors = [''bob'']\<rparr>] = ''Medium''"
   "computeConfidence mm
        [\<lparr>login = ''alice'', score = 7, reasons = []\<rparr>, \<lparr>login = ''bob'', score = 6, reasons = []\<rparr>]
        [''a'', ''b'', ''c'', ''d'', ''e'', ''f'', ''g'', ''h'', ''i'', ''j''] []
        [\<lparr>path = ''a'', authors = [''alice'']\<rparr>, \<lparr>path = ''b'', authors = [''alice'']\<rparr>] = ''Low''"
   "computeConfidence mm [\<lparr>login = ''alice'', score = 3, reasons = []\<rparr>]
        changedFiles codeownersRules fileAuthors = ''Low''"
    by (simp_all add: computeConfidence_def topScore_def secondScore_def
          coverageRatio_def ownersForFile_def Let_def)
  show ?thesis
    by (intro conjI general labels runs)
qed

section \<open>Insertion-ordered maps: keys\<close>

lemma map_fst_mapSet:
  "map fst (mapSet m k v) = (if k \<in> set (map fst m) then map fst m else map fst m @ [k])"
  by (induction m) (simp, force)

lemma mapSet_keys: "fst ` set (mapSet m k v) = insert k (fst ` set m)"
proof -
  have "set (map fst (mapSet m k v)) = insert k (set (map fst m))"
    unfolding map_fst_mapSet by auto
  then show ?thesis by simp
qed

lemma map_of_mapSet: "map_of (mapSet m k v) = (map_of m)(k \<mapsto> v)"
  by (induction m) (auto simp: fun_eq_iff)

section \<open>The latency estimator\<close>

lemma distinct_mapSet:
  "distinct (map fst m) \<Longrightarrow> distinct (map fst (mapSet m k v))"
  by (simp add: map_fst_mapSet)

lemma firstReview_lookup:
  "map_of (firstReview m r) l =
     (if l \<noteq> [] \<and> \<not> isBotLogin l \<and> user_login r = Some l
      then (case submitted_at r of None \<Rightarrow> map_of m l | Some t \<Rightarrow> earlier t (map_of m l))
      else map_of m l)"
  by (auto simp: firstReview_def earlier_def map_of_mapSet split: option.splits)

lemma firstReview_distinct:
  "distinct (map fst m) \<Longrightarrow> distinct (map fst (firstReview m r))"
  by (simp add: firstReview_def distinct_mapSet split: option.splits)

lemma firstByUser_distinct:
  "distinct (map fst m) \<Longrightarrow> distinct (map fst (fold (\<lambda>r m. firstReview m r) rs m))"
  by (induction rs arbitrary: m) (simp_all add: firstReview_distinct)

lemma reviewTimes_Cons:
  "reviewTimes l (r # rs) =
     (if user_login r = Some l then (case submitted_at r of None \<Rightarrow> [] | Some t \<Rightarrow> [t]) else [])
     @ reviewTimes l rs"
  by (simp add: reviewTimes_def)

lemma reviewTimes_Nil: "reviewTimes l [] = []"
  by (simp add: reviewTimes_def)

lemma firstByUser_lookup:
  "map_of (fold (\<lambda>r m. firstReview m r) rs m) l =
     (if l \<noteq> [] \<and> \<not> isBotLogin l then fold earlier (reviewTimes l rs) (map_of m l)
      else map_of m l)"
proof (induction rs arbitrary: m)
  case Nil
  then show ?case by (simp add: reviewTimes_Nil)
next
  case (Cons r rs)
  have "map_of (fold (\<lambda>r m. firstReview m r) (r # rs) m) l =
          (if l \<noteq> [] \<and> \<not> isBotLogin l
           then fold earlier (reviewTimes l rs) (map_of (firstReview m r) l)
           else map_of (firstReview m r) l)"
    by (simp add: Cons.IH)
  then show ?case
    by (simp add: firstReview_lookup reviewTimes_Cons split: option.splits)
qed

lemma addSample_lookup:
  "map_of (addSample c e m) l =
     (if fst e = l
      then (case hoursBetween (snd e) c of None \<Rightarrow> map_of m l
            | Some h \<Rightarrow> if h < 0 then map_of m l
                        else Some ((case map_of m l of None \<Rightarrow> [] | Some arr \<Rightarrow> arr) @ [h]))
      else map_of m l)"
  by (auto simp: addSample_def map_of_mapSet split: option.splits)

lemma addSample_distinct:
  "distinct (map fst m) \<Longrightarrow> distinct (map fst (addSample c e m))"
  by (simp add: addSample_def distinct_mapSet split: option.splits)

lemma fold_addSample_distinct:
  "distinct (map fst m) \<Longrightarrow> distinct (map fst (fold (addSample c) es m))"
  by (induction es arbitrary: m) (simp_all add: addSample_distinct)

lemma fold_addSample_lookup:
  "distinct (map fst es) \<Longrightarrow>
   map_of (fold (addSample c) es m) l =
     (case map_of es l of None \<Rightarrow> map_of m l
      | Some t \<Rightarrow>
          (case hoursBetween t c of None \<Rightarrow> map_of m l
           | Some h \<Rightarrow> if h < 0 then map_of m l
                       else Some ((case map_of m l of None \<Rightarrow> [] | Some arr \<Rightarrow> arr) @ [h])))"
proof (induction es arbitrary: m)
  case Nil
  then show ?case by simp
next
  case (Cons e es)
  then have d: "distinct (map fst es)" and fresh: "fst e \<notin> fst ` set es"
    by simp_all
  have IH: "map_of (fold (addSample c) (e # es) m) l =
     (case map_of es l of None \<Rightarrow> map_of (addSample c e m) l
      | Some t \<Rightarrow>
          (case hoursBetween t c of None \<Rightarrow> map_of (addSample c e m) l
           | Some h \<Rightarrow> if h < 0 then map_of (addSample c e m) l
                       else Some ((case map_of (addSample c e m) l of None \<Rightarrow> []
                                   | Some arr \<Rightarrow> arr) @ [h])))"
    using Cons.IH [OF d, of "addSample c e m"] by simp
  show ?case
  proof (cases "fst e = l")
    case True
    with fresh have "map_of es l = None"
      by (simp add: map_of_eq_None_iff)
    with True IH show ?thesis
      by (cases e) (simp add: addSample_lookup)
  next
    case False
    then have same: "map_of (addSample c e m) l = map_of m l"
      by (simp add: addSample_lookup)
    show ?thesis
      unfolding IH same using False by simp
  qed
qed

lemma latencySample_ineligible:
  "l = [] \<or> isBotLogin l \<Longrightarrow> latencySample since pr l = None"
  by (simp add: latencySample_def)

lemma latencySample_eligible:
  "\<not> (l = [] \<or> isBotLogin l) \<Longrightarrow>
   latencySample since pr l =
     (if \<not> (truthy (merged_at pr) \<or> truthy (closed_at pr)) then None
      else if dateLt (created_at pr) since then None
      else (case reviews pr of None \<Rightarrow> None
            | Some rs \<Rightarrow>
                (case earliest (reviewTimes l rs) of None \<Rightarrow> None
                 | Some t \<Rightarrow>
                     (case hoursBetween t (created_at pr) of None \<Rightarrow> None
                      | Some h \<Rightarrow> if 0 \<le> h then Some h else None))))"
  by (simp add: latencySample_def)

lemma samplePull_lookup:
  "map_of (samplePull since pr m) l =
     (case latencySample since pr l of None \<Rightarrow> map_of m l
      | Some h \<Rightarrow> Some ((case map_of m l of None \<Rightarrow> [] | Some arr \<Rightarrow> arr) @ [h]))"
proof (cases "reviews pr")
  case None
  have "latencySample since pr l = None"
    by (simp add: latencySample_def None)
  then show ?thesis
    by (simp add: samplePull_def None)
next
  case (Some rs)
  have d: "distinct (map fst (fold (\<lambda>r firstByUser. firstReview firstByUser r) rs []))"
    by (rule firstByUser_distinct) simp
  have first: "map_of (fold (\<lambda>r firstByUser. firstReview firstByUser r) rs []) l =
                 (if l \<noteq> [] \<and> \<not> isBotLogin l then earliest (reviewTimes l rs) else None)"
    by (simp add: firstByUser_lookup earliest_def)
  show ?thesis
  proof (cases "l = [] \<or> isBotLogin l")
    case True
    then have f: "map_of (fold (\<lambda>r firstByUser. firstReview firstByUser r) rs []) l = None"
      unfolding first by auto
    have "map_of (samplePull since pr m) l = map_of m l"
      unfolding samplePull_def Some
      by (simp add: fold_addSample_lookup [OF d] f)
    then show ?thesis
      by (simp only: latencySample_ineligible [OF True] option.case)
  next
    case False
    then have f: "map_of (fold (\<lambda>r firstByUser. firstReview firstByUser r) rs []) l
                    = earliest (reviewTimes l rs)"
      unfolding first by auto
    show ?thesis
      unfolding latencySample_eligible [OF False] samplePull_def Some
      by (simp add: fold_addSample_lookup [OF d] f split: option.splits)
  qed
qed

lemma samplePull_distinct:
  "distinct (map fst m) \<Longrightarrow> distinct (map fst (samplePull since pr m))"
  by (simp add: samplePull_def fold_addSample_distinct split: option.splits)

lemma perReviewer_distinct: "distinct (map fst (perReviewerSamples since pulls))"
proof -
  have "\<And>m. distinct (map fst m) \<Longrightarrow> distinct (map fst (fold (samplePull since) pulls m))"
    by (induction pulls) (simp_all add: samplePull_distinct)
  then show ?thesis
    by (simp add: perReviewerSamples_def)
qed

lemma latencySamples_Cons:
  "latencySamples since (pr # pulls) l =
     (case latencySample since pr l of None \<Rightarrow> [] | Some h \<Rightarrow> [h]) @ latencySamples since pulls l"
  by (simp add: latencySamples_def)

lemma fold_samplePull_lookup:
  "map_of (fold (samplePull since) pulls m) l =
     (if latencySamples since pulls l = [] then map_of m l
      else Some ((case map_of m l of None \<Rightarrow> [] | Some arr \<Rightarrow> arr) @ latencySamples since pulls l))"
proof (induction pulls arbitrary: m)
  case Nil
  then show ?case by (simp add: latencySamples_def)
next
  case (Cons pr pulls)
  have "map_of (fold (samplePull since) (pr # pulls) m) l =
     (if latencySamples since pulls l = [] then map_of (samplePull since pr m) l
      else Some ((case map_of (samplePull since pr m) l of None \<Rightarrow> [] | Some arr \<Rightarrow> arr)
                 @ latencySamples since pulls l))"
    by (simp add: Cons.IH)
  then show ?case
    by (simp add: samplePull_lookup latencySamples_Cons split: option.splits)
qed

lemma perReviewer_lookup:
  "map_of (perReviewerSamples since pulls) l =
     (if latencySamples since pulls l = [] then None else Some (latencySamples since pulls l))"
  by (simp add: perReviewerSamples_def fold_samplePull_lookup)

lemma medians_lookup:
  "distinct (map fst es) \<Longrightarrow>
   map_of (fold (\<lambda>e out. case median (snd e) of None \<Rightarrow> out
                           | Some m \<Rightarrow> mapSet out (fst e) m) es out) l =
     (case map_of es l of None \<Rightarrow> map_of out l
      | Some arr \<Rightarrow> (case median arr of None \<Rightarrow> map_of out l | Some m \<Rightarrow> Some m))"
proof (induction es arbitrary: out)
  case Nil
  then show ?case by simp
next
  case (Cons e es)
  then have d: "distinct (map fst es)" and fresh: "fst e \<notin> fst ` set es"
    by simp_all
  let ?out = "case median (snd e) of None \<Rightarrow> out | Some m \<Rightarrow> mapSet out (fst e) m"
  have IH: "map_of (fold (\<lambda>e out. case median (snd e) of None \<Rightarrow> out
                           | Some m \<Rightarrow> mapSet out (fst e) m) (e # es) out) l =
     (case map_of es l of None \<Rightarrow> map_of ?out l
      | Some arr \<Rightarrow> (case median arr of None \<Rightarrow> map_of ?out l | Some m \<Rightarrow> Some m))"
    using Cons.IH [OF d, of ?out] by simp
  show ?case
  proof (cases "fst e = l")
    case True
    with fresh have "map_of es l = None"
      by (simp add: map_of_eq_None_iff)
    with True IH show ?thesis
      by (cases e) (simp add: map_of_mapSet split: option.splits)
  next
    case False
    then have same: "map_of ?out l = map_of out l"
      by (simp add: map_of_mapSet split: option.splits)
    show ?thesis
      unfolding IH same using False by simp
  qed
qed

lemma median_empty: "median [] = None"
  by (simp add: median_def)

lemma median_nonempty:
  "xs \<noteq> [] \<Longrightarrow>
   median xs = Some (if length xs mod 2 \<noteq> 0 then sort xs ! (length xs div 2)
                     else (sort xs ! (length xs div 2 - 1) + sort xs ! (length xs div 2)) / 2)"
  by (simp add: median_def Let_def)

lemma median_None: "(median xs = None) = (xs = [])"
proof (cases "xs = []")
  case True
  then show ?thesis by (simp add: median_empty)
next
  case False
  from median_nonempty [OF False] obtain m where "median xs = Some m" ..
  with False show ?thesis by simp
qed

text \<open>
  Claim C8. The median of 2 and 4 is 3, the median of 1, 2 and 9 is 2, and the median
  of the empty list is \<open>None\<close> (the source's \<open>null\<close>), not zero. The map that
  \<open>computeReviewerLatencyHours\<close> returns holds, for every reviewer, the median of
  the valid latency samples of that reviewer; so a reviewer has no entry exactly when
  the reviewer has no valid sample, and is then absent rather than mapped to 0.
\<close>

theorem median_and_absent_reviewer:
  "median [2, 4] = Some 3 \<and> median [1, 2, 9] = Some 2 \<and> median [] = None
   \<and> map_of (computeReviewerLatencyHours since pulls) l = median (latencySamples since pulls l)
   \<and> (map_of (computeReviewerLatencyHours since pulls) l = None)
       = (latencySamples since pulls l = [])"
proof -
  have look: "map_of (computeReviewerLatencyHours since pulls) l
                = median (latencySamples since pulls l)"
  proof (cases "latencySamples since pulls l = []")
    case True
    then show ?thesis
      unfolding computeReviewerLatencyHours_def
      by (simp add: medians_lookup [OF perReviewer_distinct] perReviewer_lookup median_empty)
  next
    case False
    then show ?thesis
      unfolding computeReviewerLatencyHours_def
      by (simp add: medians_lookup [OF perReviewer_distinct] perReviewer_lookup
            split: option.splits)
  qed
  have empty: "(map_of (computeReviewerLatencyHours since pulls) l = None)
                 = (latencySamples since pulls l = [])"
    unfolding look by (rule median_None)
  have "median [2, 4] = Some 3" "median [1, 2, 9] = Some 2" "median [] = None"
    by (simp_all add: median_def)
  with look empty show ?thesis
    by blast
qed

theorem median_and_absent_reviewer_witness:
  "latencySamples (Some 0)
        [\<lparr>merged_at = None, closed_at = Some ''2024-01-01T00:00:00Z'', created_at = Some (- 5),
          reviews = Some [\<lparr>user_login = Some ''carol'', submitted_at = Some (Some 3600000)\<rparr>]\<rparr>,
         \<lparr>merged_at = Some ''2024-01-02T00:00:00Z'', closed_at = None, created_at = Some 7200000,
          reviews = Some [\<lparr>user_login = Some ''alice'', submitted_at = Some (Some 10800000)\<rparr>,
                          \<lparr>user_login = Some ''alice'', submitted_at = Some (Some 3600000)\<rparr>,
                          \<lparr>user_login = Some ''bob'', submitted_at = Some (Some 7200000)\<rparr>,
                          \<lparr>user_login = Some ''dave'', submitted_at = None\<rparr>,
                          \<lparr>user_login = Some ''dependabot[bot]'',
                            submitted_at = Some (Some 10800000)\<rparr>]\<rparr>] ''alice'' = []
   \<and> latencySamples (Some 0)
        [\<lparr>merged_at = None, closed_at = Some ''2024-01-01T00:00:00Z'', created_at = Some (- 5),
          reviews = Some [\<lparr>user_login = Some ''carol'', submitted_at = Some (Some 3600000)\<rparr>]\<rparr>,
         \<lparr>merged_at = Some ''2024-01-02T00:00:00Z'', closed_at = None, created_at = Some 7200000,
          reviews = Some [\<lparr>user_login = Some ''alice'', submitted_at = Some (Some 10800000)\<rparr>,
                          \<lparr>user_login = Some ''alice'', submitted_at = Some (Some 3600000)\<rparr>,
                          \<lparr>user_login = Some ''bob'', submitted_at = Some (Some 7200000)\<rparr>,
                          \<lparr>user_login = Some ''dave'', submitted_at = None\<rparr>,
                          \<lparr>user_login = Some ''dependabot[bot]'',
                            submitted_at = Some (Some 10800000)\<rparr>]\<rparr>] ''bob'' = [0]
   \<and> latencySamples (Some 0)
        [\<lparr>merged_at = None, closed_at = Some ''2024-01-01T00:00:00Z'', created_at = Some (- 5),
          reviews = Some [\<lparr>user_login = Some ''carol'', submitted_at = Some (Some 3600000)\<rparr>]\<rparr>,
         \<lparr>merged_at = Some ''2024-01-02T00:00:00Z'', closed_at = None, created_at = Some 7200000,
          reviews = Some [\<lparr>user_login = Some ''alice'', submitted_at = Some (Some 10800000)\<rparr>,
                          \<lparr>user_login = Some ''alice'', submitted_at = Some (Some 3600000)\<rparr>,
                          \<lparr>user_login = Some ''bob'', submitted_at = Some (Some 7200000)\<rparr>,
                          \<lparr>user_login = Some ''dave'', submitted_at = None\<rparr>,
                          \<lparr>user_login = Some ''dependabot[bot]'',
                            submitted_at = Some (Some 10800000)\<rparr>]\<rparr>] ''carol'' = []
   \<and> computeReviewerLatencyHours (Some 0)
        [\<lparr>merged_at = None, closed_at = Some ''2024-01-01T00:00:00Z'', created_at = Some (- 5),
          reviews = Some [\<lparr>user_login = Some ''carol'', submitted_at = Some (Some 3600000)\<rparr>]\<rparr>,
         \<lparr>merged_at = Some ''2024-01-02T00:00:00Z'', closed_at = None, created_at = Some 7200000,
          reviews = Some [\<lparr>user_login = Some ''alice'', submitted_at = Some (Some 10800000)\<rparr>,
                          \<lparr>user_login = Some ''alice'', submitted_at = Some (Some 3600000)\<rparr>,
                          \<lparr>user_login = Some ''bob'', submitted_at = Some (Some 7200000)\<rparr>,
                          \<lparr>user_login = Some ''dave'', submitted_at = None\<rparr>,
                          \<lparr>user_login = Some ''dependabot[bot]'',
                            submitted_at = Some (Some 10800000)\<rparr>]\<rparr>] = [(''bob'', 0)]
   \<and> map_of (computeReviewerLatencyHours (Some 0)
        [\<lparr>merged_at = None, closed_at = Some ''2024-01-01T00:00:00Z'', created_at = Some (- 5),
          reviews = Some [\<lparr>user_login = Some ''carol'', submitted_at = Some (Some 3600000)\<rparr>]\<rparr>,
         \<lparr>merged_at = Some ''2024-01-02T00:00:00Z'', closed_at = None, created_at = Some 7200000,
          reviews = Some [\<lparr>user_login = Some ''alice'', submitted_at = Some (Some 10800000)\<rparr>,
                          \<lparr>user_login = Some ''alice'', submitted_at = Some (Some 3600000)\<rparr>,
                          \<lparr>user_login = Some ''bob'', submitted_at = Some (Some 7200000)\<rparr>,
                          \<lparr>user_login = Some ''dave'', submitted_at = None\<rparr>,
                          \<lparr>user_login = Some ''dependabot[bot]'',
                            submitted_at = Some (Some 10800000)\<rparr>]\<rparr>]) ''alice'' = None
   \<and> map_of (computeReviewerLatencyHours (Some 0)
        [\<lparr>merged_at = None, closed_at = Some ''2024-01-01T00:00:00Z'', created_at = Some (- 5),
          reviews = Some [\<lparr>user_login = Some ''carol'', submitted_at = Some (Some 3600000)\<rparr>]\<rparr>,
         \<lparr>merged_at = Some ''2024-01-02T00:00:00Z'', closed_at = None, created_at = Some 7200000,
          reviews = Some [\<lparr>user_login = Some ''alice'', submitted_at = Some (Some 10800000)\<rparr>,
                          \<lparr>user_login = Some ''alice'', submitted_at = Some (Some 3600000)\<rparr>,
                          \<lparr>user_login = Some ''bob'', submitted_at = Some (Some 7200000)\<rparr>,
                          \<lparr>user_login = Some ''dave'', submitted_at = None\<rparr>,
                          \<lparr>user_login = Some ''dependabot[bot]'',
                            submitted_at = Some (Some 10800000)\<rparr>]\<rparr>]) ''bob'' = Some 0"
  using median_and_absent_reviewer [of "Some 0"
        "[\<lparr>merged_at = None, closed_at = Some ''2024-01-01T00:00:00Z'', created_at = Some (- 5),
          reviews = Some [\<lparr>user_login = Some ''carol'', submitted_at = Some (Some 3600000)\<rparr>]\<rparr>,
         \<lparr>merged_at = Some ''2024-01-02T00:00:00Z'', closed_at = None, created_at = Some 7200000,
          reviews = Some [\<lparr>user_login = Some ''alice'', submitted_at = Some (Some 10800000)\<rparr>,
                          \<lparr>user_login = Some ''alice'', submitted_at = Some (Some 3600000)\<rparr>,
                          \<lparr>user_login = Some ''bob'', submitted_at = Some (Some 7200000)\<rparr>,
                          \<lparr>user_login = Some ''dave'', submitted_at = None\<rparr>,
                          \<lparr>user_login = Some ''dependabot[bot]'',
                            submitted_at = Some (Some 10800000)\<rparr>]\<rparr>]" "''alice''"]
  by (simp add: latencySamples_def latencySample_def earliest_def earlier_def reviewTimes_def
        hoursBetween_def computeReviewerLatencyHours_def perReviewerSamples_def samplePull_def
        truthy_def dateLt_def firstReview_def addSample_def isBotLogin_examples median_def)

section \<open>The loops of the ranking as a list of awards\<close>

lemma fold_award_map:
  "fold (\<lambda>x. add a (f x) (g x) (h x)) xs st = fold (award a) (map (\<lambda>x. (f x, g x, h x)) xs) st"
  by (induction xs arbitrary: st) (simp_all add: award_def)

lemma commitHistorySignal_awards:
  "commitHistorySignal a w fas st = fold (award a) (commitAwards w fas) st"
proof (induction fas arbitrary: st)
  case Nil
  then show ?case by (simp add: commitHistorySignal_def commitAwards_def commitHits_def)
next
  case (Cons fa fas)
  have step: "commitHistorySignal a w (fa # fas) st =
      commitHistorySignal a w fas
        (fold (award a)
           (map (\<lambda>i. (authors fa ! i, real_of_int (max 1 (3 - int i)) * commitHistory w,
                        ''recent commits''))
                [0 ..< min (length (authors fa)) 10]) st)"
    unfolding commitHistorySignal_def by (simp add: fold_award_map)
  show ?case
    unfolding step Cons.IH
    by (simp add: commitAwards_def commitHits_def comp_def)
qed

lemma awardOwners_hits:
  "awardOwners a w f ows (seen, st) =
     (fst (ownerHitsFile f ows seen),
      fold (award a) (map (\<lambda>ow. (ow, codeowners w, ''CODEOWNERS'')) (snd (ownerHitsFile f ows seen))) st)"
  by (induction ows arbitrary: seen st) (simp_all add: Let_def award_def)

lemma codeownersLoop_hits:
  "snd (codeownersLoop mm a w rules fs (seen, st)) =
     fold (award a) (map (\<lambda>ow. (ow, codeowners w, ''CODEOWNERS'')) (ownerHits mm rules fs seen)) st"
  by (induction fs arbitrary: seen st) (simp_all add: awardOwners_hits Let_def)

lemma codeownersSignal_awards:
  "codeownersSignal mm a w rules files st = fold (award a) (ownerAwards mm w rules files) st"
  by (simp add: codeownersSignal_def ownerAwards_def codeownersLoop_hits)

lemma fold_if_filter:
  "fold (\<lambda>x s. if P x then g x s else s) xs s = fold g (filter P xs) s"
  by (induction xs arbitrary: s) simp_all

lemma latencySignal_awards:
  "latencySignal a w lm st = fold (award a) (latencyAwards w lm) st"
proof (cases lm)
  case None
  then show ?thesis by (simp add: latencySignal_def latencyAwards_def latencyHits_def)
next
  case (Some xs)
  show ?thesis
  proof (cases "latency w > 0")
    case False
    then show ?thesis by (simp add: latencySignal_def latencyAwards_def Some)
  next
    case True
    then have pos: "\<And>e. (latencyBonusHours (Some (snd e)) * latency w > 0)
                      = (latencyBonusHours (Some (snd e)) > 0)"
      by (simp add: zero_less_mult_iff)
    have "latencySignal a w lm st =
            fold (\<lambda>e s. if latencyBonusHours (Some (snd e)) > 0
                         then add a (fst e) (latencyBonusHours (Some (snd e)) * latency w)
                                (latencyReason (snd e)) s
                         else s) xs st"
      using True by (cases xs) (simp_all add: latencySignal_def Some Let_def pos)
    also have "\<dots> = fold (award a) (latencyAwards w lm) st"
      using True
      by (simp add: fold_if_filter fold_award_map latencyAwards_def latencyHits_def Some)
    finally show ?thesis .
  qed
qed

lemma rankCandidates_awards:
  "rankCandidates mm fas a rules files lm w =
     ranked (fold (award a) (awards mm fas rules files lm w) \<lparr>scores = [], reasonSets = []\<rparr>)"
  by (simp add: rankCandidates_def awards_def commitHistorySignal_awards
        codeownersSignal_awards latencySignal_awards)

section \<open>Who is ranked\<close>

lemma keys_add:
  "map fst (scores (add a l p r st)) =
     (if eligible a l \<and> l \<notin> set (map fst (scores st))
      then map fst (scores st) @ [l] else map fst (scores st))"
  by (simp add: add_def eligible_def Let_def map_fst_mapSet)

lemma keys_fold_award:
  "set (map fst (scores (fold (award a) xs st))) =
     set (map fst (scores st)) \<union> {l \<in> fst ` set xs. eligible a l}"
proof (induction xs arbitrary: st)
  case Nil
  then show ?case by simp
next
  case (Cons x xs)
  show ?case
    unfolding fold_simps Cons.IH
    by (auto simp: award_def keys_add)
qed

lemma distinct_fold_award:
  "distinct (map fst (scores st)) \<Longrightarrow> distinct (map fst (scores (fold (award a) xs st)))"
proof (induction xs arbitrary: st)
  case Nil
  then show ?case by simp
next
  case (Cons x xs)
  have "distinct (map fst (scores (award a x st)))"
    using Cons.prems by (simp add: award_def keys_add)
  from Cons.IH [OF this] show ?case by simp
qed

lemma ranked_logins: "set (map login (ranked st)) = set (map fst (scores st))"
  by (simp add: ranked_def comp_def)

lemma rankCandidates_logins:
  "set (map login (rankCandidates mm fas a rules files lm w)) =
     {l \<in> fst ` set (awards mm fas rules files lm w). eligible a l}"
  by (simp only: rankCandidates_awards ranked_logins keys_fold_award) simp

text \<open>
  Claim C2. Whatever the inputs and the weights, no entry of the list that
  \<open>rankCandidates\<close> returns has the login of the PR author or a bot-like login.
\<close>

theorem ranked_excludes_author_and_bots:
  "\<forall>c \<in> set (rankCandidates mm fileAuthors prAuthor codeownersRules changedFiles latencyMap w).
     Some (login c) \<noteq> prAuthor \<and> \<not> isBotLogin (login c)"
proof
  fix c
  assume "c \<in> set (rankCandidates mm fileAuthors prAuthor codeownersRules changedFiles latencyMap w)"
  then have "login c \<in> set (map login
               (rankCandidates mm fileAuthors prAuthor codeownersRules changedFiles latencyMap w))"
    by simp
  then have "eligible prAuthor (login c)"
    unfolding rankCandidates_logins by simp
  then show "Some (login c) \<noteq> prAuthor \<and> \<not> isBotLogin (login c)"
    by (simp add: eligible_def)
qed

lemma fast_reviewer_reason: "latencyReason 2 = ''fast reviewer (~2h median)''"
  by (simp add: latencyReason_def mathRound_def showInt_def showNat.simps)

theorem ranked_excludes_author_and_bots_witness:
  "rankCandidates minimatch
     [\<lparr>path = ''src/app.js'', authors = [''carol'', ''dependabot[bot]'', ''dave'']\<rparr>]
     (Some ''carol'')
     [\<lparr>pattern = ''/src/**'', owners = [''carol'', ''alice'']\<rparr>]
     [''src/app.js''] (Some [(''RoBOT'', 2), (''carol'', 2)])
     \<lparr>commitHistory = 1, codeowners = 4, latency = 1\<rparr>
   = [\<lparr>login = ''alice'', score = 4, reasons = [''CODEOWNERS'']\<rparr>,
      \<lparr>login = ''dave'', score = 1, reasons = [''recent commits'']\<rparr>]
   \<and> list_all (\<lambda>c. Some (login c) \<noteq> Some ''carol'' \<and> \<not> isBotLogin (login c))
        (rankCandidates minimatch
          [\<lparr>path = ''src/app.js'', authors = [''carol'', ''dependabot[bot]'', ''dave'']\<rparr>]
          (Some ''carol'')
          [\<lparr>pattern = ''/src/**'', owners = [''carol'', ''alice'']\<rparr>]
          [''src/app.js''] (Some [(''RoBOT'', 2), (''carol'', 2)])
          \<lparr>commitHistory = 1, codeowners = 4, latency = 1\<rparr>)"
  using ranked_excludes_author_and_bots [of minimatch
          "[\<lparr>path = ''src/app.js'', authors = [''carol'', ''dependabot[bot]'', ''dave'']\<rparr>]"
          "Some ''carol''"
          "[\<lparr>pattern = ''/src/**'', owners = [''carol'', ''alice'']\<rparr>]"
          "[''src/app.js'']" "Some [(''RoBOT'', 2), (''carol'', 2)]"
          "\<lparr>commitHistory = 1, codeowners = 4, latency = 1\<rparr>"]
  by (simp add: rankCandidates_def commitHistorySignal_def codeownersSignal_def
        latencySignal_def ranked_def ownersForFile_def normalizeCodeownersPattern_def
        startsWith_def minimatch_examples add_def isBotLogin_examples setAdd_def
        latencyBonusHours_def fast_reviewer_reason upt_rec)

section \<open>Scores and reasons after a list of awards\<close>

lemma score_add:
  "map_of (scores (add a l p r st)) k =
     (if eligible a l \<and> k = l
      then Some ((case map_of (scores st) l of None \<Rightarrow> 0 | Some s \<Rightarrow> s) + p)
      else map_of (scores st) k)"
  by (simp add: add_def eligible_def Let_def map_of_mapSet)

lemma pointsFor_Cons:
  "pointsFor l (x # xs) = (if fst x = l then fst (snd x) + pointsFor l xs else pointsFor l xs)"
  by (simp add: pointsFor_def)

lemma pointsFor_append: "pointsFor l (xs @ ys) = pointsFor l xs + pointsFor l ys"
  by (simp add: pointsFor_def)

lemma pointsFor_absent: "l \<notin> fst ` set xs \<Longrightarrow> pointsFor l xs = 0"
proof -
  assume "l \<notin> fst ` set xs"
  then have "filter (\<lambda>x. fst x = l) xs = []"
    by (auto simp: filter_empty_conv)
  then show ?thesis by (simp add: pointsFor_def)
qed

lemma score_fold_award:
  "map_of (scores (fold (award a) xs st)) l =
     (if eligible a l \<and> l \<in> fst ` set xs
      then Some ((case map_of (scores st) l of None \<Rightarrow> 0 | Some s \<Rightarrow> s) + pointsFor l xs)
      else map_of (scores st) l)"
proof (induction xs arbitrary: st)
  case Nil
  then show ?case by simp
next
  case (Cons x xs)
  have IH: "map_of (scores (fold (award a) xs (award a x st))) l =
     (if eligible a l \<and> l \<in> fst ` set xs
      then Some ((case map_of (scores (award a x st)) l of None \<Rightarrow> 0 | Some s \<Rightarrow> s)
                 + pointsFor l xs)
      else map_of (scores (award a x st)) l)"
    by (rule Cons.IH)
  show ?case
  proof (cases "eligible a l \<and> fst x = l")
    case True
    then have "map_of (scores (award a x st)) l =
        Some ((case map_of (scores st) l of None \<Rightarrow> 0 | Some s \<Rightarrow> s) + fst (snd x))"
      by (auto simp: award_def score_add)
    with True IH show ?thesis
      by (simp add: pointsFor_Cons pointsFor_absent)
  next
    case False
    then have "map_of (scores (award a x st)) l = map_of (scores st) l"
      by (auto simp: award_def score_add)
    with False IH show ?thesis
      by (auto simp: pointsFor_Cons)
  qed
qed

lemma reasons_add:
  "map_of (reasonSets (add a l p r st)) k =
     (if eligible a l \<and> k = l
      then Some (let old = (case map_of (reasonSets st) l of None \<Rightarrow> [] | Some rs \<Rightarrow> rs)
                 in if r \<noteq> [] then setAdd old r else old)
      else map_of (reasonSets st) k)"
  by (auto simp: add_def eligible_def Let_def map_of_mapSet split: option.splits)

lemma reasons_fold_same:
  assumes "\<forall>x \<in> set xs. snd (snd x) = r" and "r \<noteq> []"
    and "map_of (reasonSets st) l = None \<or> map_of (reasonSets st) l = Some [r]"
  shows "map_of (reasonSets (fold (award a) xs st)) l =
           (if eligible a l \<and> l \<in> fst ` set xs then Some [r] else map_of (reasonSets st) l)"
  using assms
proof (induction xs arbitrary: st)
  case Nil
  then show ?case by simp
next
  case (Cons x xs)
  have rx: "snd (snd x) = r" using Cons.prems(1) by simp
  show ?case
  proof (cases "eligible a l \<and> fst x = l")
    case True
    then have now: "map_of (reasonSets (award a x st)) l = Some [r]"
      using Cons.prems(3) rx \<open>r \<noteq> []\<close>
      by (auto simp: award_def reasons_add setAdd_def)
    have "map_of (reasonSets (fold (award a) xs (award a x st))) l =
            (if eligible a l \<and> l \<in> fst ` set xs then Some [r]
             else map_of (reasonSets (award a x st)) l)"
      using Cons.IH [of "award a x st"] Cons.prems(1) \<open>r \<noteq> []\<close> now by simp
    with True now show ?thesis by simp
  next
    case False
    then have same: "map_of (reasonSets (award a x st)) l = map_of (reasonSets st) l"
      by (auto simp: award_def reasons_add)
    have "map_of (reasonSets (fold (award a) xs (award a x st))) l =
            (if eligible a l \<and> l \<in> fst ` set xs then Some [r]
             else map_of (reasonSets (award a x st)) l)"
      using Cons.IH [of "award a x st"] Cons.prems same by simp
    with False same show ?thesis by auto
  qed
qed

lemma ranked_member:
  "(c \<in> set (ranked st)) =
     (\<exists>e \<in> set (scores st).
        c = \<lparr>login = fst e, score = snd e,
             reasons = (case map_of (reasonSets st) (fst e) of None \<Rightarrow> [] | Some rs \<Rightarrow> rs)\<rparr>)"
  by (auto simp: ranked_def)

lemma ranked_memberI:
  assumes "map_of (scores st) l = Some s" and "map_of (reasonSets st) l = Some rs"
  shows "\<lparr>login = l, score = s, reasons = rs\<rparr> \<in> set (ranked st)"
proof -
  from assms(1) have "(l, s) \<in> set (scores st)" by (rule map_of_SomeD)
  then show ?thesis
    unfolding ranked_member using assms(2) by force
qed

lemma take_as_nth: "map (\<lambda>i. xs ! i) [0 ..< min (length xs) n] = take n xs"
  by (rule nth_equalityI) simp_all

lemma commitHits_map_fst:
  "map fst (commitHits fas) = concat (map (\<lambda>fa. take 10 (authors fa)) fas)"
  unfolding commitHits_def by (simp add: map_concat comp_def take_as_nth)

lemma commitHits_logins:
  "fst ` set (commitHits fas) = (\<Union>fa \<in> set fas. set (take 10 (authors fa)))"
proof -
  have "fst ` set (commitHits fas) = set (map fst (commitHits fas))" by simp
  then show ?thesis unfolding commitHits_map_fst by simp
qed

lemma commitAwards_logins:
  "fst ` set (commitAwards w fas) = (\<Union>fa \<in> set fas. set (take 10 (authors fa)))"
  by (simp add: commitAwards_def image_image commitHits_logins [symmetric])

lemma ownerHitsFile_subset: "set (snd (ownerHitsFile f ows seen)) \<subseteq> set ows"
  by (induction ows arbitrary: seen) (auto simp: Let_def)

lemma ownerHits_subset:
  "set (ownerHits mm rules fs seen) \<subseteq> (\<Union>f \<in> set fs. set (ownersForFile mm rules f))"
proof (induction fs arbitrary: seen)
  case Nil
  then show ?case by simp
next
  case (Cons f fs)
  show ?case
    using Cons.IH [of "fst (ownerHitsFile f (ownersForFile mm rules f) seen)"]
      ownerHitsFile_subset [of f "ownersForFile mm rules f" seen]
    by (auto simp: Let_def)
qed

lemma ownerAwards_logins:
  "fst ` set (ownerAwards mm w rules fs) \<subseteq> (\<Union>f \<in> set fs. set (ownersForFile mm rules f))"
  using ownerHits_subset [of mm rules fs "{}"]
  by (auto simp: ownerAwards_def image_image)

lemma latencyAwards_logins:
  "fst ` set (latencyAwards w lm) \<subseteq> fst ` set (latencyHits lm)"
  by (force simp: latencyAwards_def image_image)

section \<open>No candidate survives\<close>

lemma includesStr_prefix: "includesStr (ys @ zs) ys"
proof (cases "ys @ zs")
  case Nil
  then show ?thesis by simp
next
  case (Cons c cs)
  have "startsWith (ys @ zs) ys" by (simp add: startsWith_def)
  then show ?thesis unfolding Cons by simp
qed

lemma includesStr_append: "includesStr (xs @ ys @ zs) ys"
proof (induction xs)
  case Nil
  then show ?case by (simp add: includesStr_prefix)
next
  case (Cons x xs)
  then show ?case by simp
qed

lemma formatComment_empty:
  "formatComment showScore [] lookbackDays maxFiles fileCount confidence =
     (''### Reviewer suggestions'' @ [CHR 0x0A] @ MARKER @ [CHR 0x0A, CHR 0x0A]
      @ ''Based on:'' @ [CHR 0x0A]
      @ ''- commit history in the last **'' @ showInt lookbackDays @ '' days**'' @ [CHR 0x0A]
      @ ''- changed files: **'' @ showInt (min fileCount maxFiles) @ ''**'' @ [CHR 0x0A]
      @ ''- confidence: **'' @ confidence @ ''**'' @ [CHR 0x0A, CHR 0x0A])
     @ ''No strong candidates''
     @ '' found (not enough history, no CODEOWNERS match, or only bots/author matched).''
     @ [CHR 0x0A]"
  by (simp add: formatComment_def Let_def)

lemma no_awards_no_candidates:
  assumes "\<forall>l \<in> fst ` set xs. \<not> eligible a l"
  shows "ranked (fold (award a) xs \<lparr>scores = [], reasonSets = []\<rparr>) = []"
proof -
  have "set (map fst (scores (fold (award a) xs \<lparr>scores = [], reasonSets = []\<rparr>))) = {}"
    unfolding keys_fold_award using assms by auto
  then have "scores (fold (award a) xs \<lparr>scores = [], reasonSets = []\<rparr>) = []"
    by simp
  then show ?thesis by (simp add: ranked_def)
qed



lemma award_logins_cases:
  assumes "l \<in> fst ` set (awards mm fileAuthors codeownersRules changedFiles latencyMap w)"
  shows "(\<exists>fa \<in> set fileAuthors. l \<in> set (take 10 (authors fa)))
         \<or> (\<exists>f \<in> set changedFiles. l \<in> set (ownersForFile mm codeownersRules f))
         \<or> (\<exists>lm. latencyMap = Some lm \<and>
               (\<exists>e \<in> set lm. latencyBonusHours (Some (snd e)) > 0 \<and> l = fst e))"
proof -
  from assms consider
      (c) "l \<in> fst ` set (commitAwards w fileAuthors)"
    | (o) "l \<in> fst ` set (ownerAwards mm w codeownersRules changedFiles)"
    | (t) "l \<in> fst ` set (latencyAwards w latencyMap)"
    by (auto simp: awards_def)
  then show ?thesis
  proof cases
    case c
    then show ?thesis
      unfolding commitAwards_logins by blast
  next
    case o
    have "l \<in> (\<Union>f \<in> set changedFiles. set (ownersForFile mm codeownersRules f))"
      by (rule rev_subsetD [OF o ownerAwards_logins])
    then show ?thesis by blast
  next
    case t
    have "l \<in> fst ` set (latencyHits latencyMap)"
      by (rule rev_subsetD [OF t latencyAwards_logins])
    then have "\<exists>lm. latencyMap = Some lm \<and>
               (\<exists>e \<in> set lm. latencyBonusHours (Some (snd e)) > 0 \<and> l = fst e)"
      by (cases latencyMap) (auto simp: latencyHits_def)
    then show ?thesis by blast
  qed
qed

text \<open>
  Claim C9. When every login that a signal would award (the first ten contributors
  of each file, the owners of each changed file, the reviewers with a positive latency
  bonus) is bot-like or the PR author, \<open>rankCandidates\<close> returns the empty list;
  and the comment that \<open>formatComment\<close> renders for an empty list of suggestions
  contains the text \<open>No strong candidates\<close>.
\<close>

theorem no_candidates_survive:
  "((\<forall>fa \<in> set fileAuthors. \<forall>l \<in> set (take 10 (authors fa)). isBotLogin l \<or> Some l = prAuthor)
     \<and> (\<forall>f \<in> set changedFiles. \<forall>l \<in> set (ownersForFile mm codeownersRules f).
           isBotLogin l \<or> Some l = prAuthor)
     \<and> (\<forall>lm. latencyMap = Some lm \<longrightarrow>
           (\<forall>e \<in> set lm. latencyBonusHours (Some (snd e)) > 0 \<longrightarrow>
              isBotLogin (fst e) \<or> Some (fst e) = prAuthor))
     \<longrightarrow> rankCandidates mm fileAuthors prAuthor codeownersRules changedFiles latencyMap w = [])
   \<and> includesStr (formatComment showScore [] lookbackDays maxFiles fileCount confidence)
        ''No strong candidates''"
proof (rule conjI, rule impI)
  assume h: "(\<forall>fa \<in> set fileAuthors. \<forall>l \<in> set (take 10 (authors fa)). isBotLogin l \<or> Some l = prAuthor)
     \<and> (\<forall>f \<in> set changedFiles. \<forall>l \<in> set (ownersForFile mm codeownersRules f).
           isBotLogin l \<or> Some l = prAuthor)
     \<and> (\<forall>lm. latencyMap = Some lm \<longrightarrow>
           (\<forall>e \<in> set lm. latencyBonusHours (Some (snd e)) > 0 \<longrightarrow>
              isBotLogin (fst e) \<or> Some (fst e) = prAuthor))"
  have "\<forall>l \<in> fst ` set (awards mm fileAuthors codeownersRules changedFiles latencyMap w).
          \<not> eligible prAuthor l"
  proof
    fix l
    assume "l \<in> fst ` set (awards mm fileAuthors codeownersRules changedFiles latencyMap w)"
    from award_logins_cases [OF this] h have "isBotLogin l \<or> Some l = prAuthor"
      by blast
    then show "\<not> eligible prAuthor l"
      unfolding eligible_def by blast
  qed
  then show "rankCandidates mm fileAuthors prAuthor codeownersRules changedFiles latencyMap w = []"
    unfolding rankCandidates_awards by (rule no_awards_no_candidates)
next
  show "includesStr (formatComment showScore [] lookbackDays maxFiles fileCount confidence)
          ''No strong candidates''"
    unfolding formatComment_empty by (rule includesStr_append)
qed

theorem no_candidates_survive_witness:
  "list_all (\<lambda>l. isBotLogin l \<or> Some l = Some ''carol'') (take 10 [''carol'', ''dependabot[bot]''])
   \<and> ownersForFile minimatch [\<lparr>pattern = ''/src/**'', owners = [''carol'']\<rparr>] ''src/app.js'' = [''carol'']
   \<and> latencyBonusHours (Some 2) > 0 \<and> isBotLogin ''RoBOT''
   \<and> rankCandidates minimatch
        [\<lparr>path = ''src/app.js'', authors = [''carol'', ''dependabot[bot]'']\<rparr>] (Some ''carol'')
        [\<lparr>pattern = ''/src/**'', owners = [''carol'']\<rparr>] [''src/app.js'']
        (Some [(''RoBOT'', 2)]) \<lparr>commitHistory = 1, codeowners = 4, latency = 1\<rparr> = []
   \<and> formatComment (\<lambda>x. showInt \<lfloor>x\<rfloor>) [] 90 50 1 ''Low'' =
        ''### Reviewer suggestions\<newline><!-- reviewer-suggester:v0 -->\<newline>\<newline>Based on:\<newline>- commit history in the last **90 days**\<newline>- changed files: **1**\<newline>- confidence: **Low**\<newline>\<newline>No strong candidates found (not enough history, no CODEOWNERS match, or only bots/author matched).\<newline>''
   \<and> includesStr (formatComment (\<lambda>x. showInt \<lfloor>x\<rfloor>) [] 90 50 1 ''Low'') ''No strong candidates''"
  using no_candidates_survive [of
        "[\<lparr>path = ''src/app.js'', authors = [''carol'', ''dependabot[bot]'']\<rparr>]" "Some ''carol''"
        "[''src/app.js'']" minimatch "[\<lparr>pattern = ''/src/**'', owners = [''carol'']\<rparr>]"
        "Some [(''RoBOT'', 2)]" "\<lparr>commitHistory = 1, codeowners = 4, latency = 1\<rparr>"
        "\<lambda>x. showInt \<lfloor>x\<rfloor>" 90 50 1 "''Low''"]
  by (simp add: ownersForFile_def normalizeCodeownersPattern_def startsWith_def
        minimatch_examples isBotLogin_examples latencyBonusHours_def
        formatComment_def MARKER_def showInt_def showNat.simps)

section \<open>Weights of zero\<close>

lemma pointsFor_zero:
  "\<forall>x \<in> set xs. fst (snd x) = 0 \<Longrightarrow> pointsFor l xs = 0"
proof (induction xs)
  case Nil
  then show ?case by (simp add: pointsFor_def)
next
  case (Cons x xs)
  then show ?case by (simp add: pointsFor_Cons)
qed

lemma zero_weight_awards:
  assumes "commitHistory w = 0" "codeowners w = 0" "latency w = 0"
  shows "awards mm fas rules files lm w = map (\<lambda>h. (fst h, 0, ''recent commits'')) (commitHits fas)"
  using assms by (simp add: awards_def commitAwards_def ownerAwards_def latencyAwards_def)

text \<open>
  Claim C10. The contributor-history loop has no guard on its weight. With the three
  weights at zero, every login among the first ten contributors of some file that
  is neither bot-like nor the PR author is in the result, with score 0 and the reason
  \<open>recent commits\<close>.
\<close>

theorem zero_weights_keep_contributors:
  "commitHistory w = 0 \<and> codeowners w = 0 \<and> latency w = 0
   \<and> fa \<in> set fileAuthors \<and> l \<in> set (take 10 (authors fa))
   \<and> \<not> isBotLogin l \<and> Some l \<noteq> prAuthor
   \<longrightarrow> \<lparr>login = l, score = 0, reasons = [''recent commits'']\<rparr>
         \<in> set (rankCandidates mm fileAuthors prAuthor codeownersRules changedFiles latencyMap w)"
proof
  assume h: "commitHistory w = 0 \<and> codeowners w = 0 \<and> latency w = 0
   \<and> fa \<in> set fileAuthors \<and> l \<in> set (take 10 (authors fa))
   \<and> \<not> isBotLogin l \<and> Some l \<noteq> prAuthor"
  let ?xs = "awards mm fileAuthors codeownersRules changedFiles latencyMap w"
  let ?st = "fold (award prAuthor) ?xs \<lparr>scores = [], reasonSets = []\<rparr>"
  have xs: "?xs = map (\<lambda>h. (fst h, 0, ''recent commits'')) (commitHits fileAuthors)"
    using h by (simp add: zero_weight_awards)
  have "l \<noteq> []" using h isBotLogin_examples(8) by blast
  then have el: "eligible prAuthor l"
    using h by (simp add: eligible_def)
  have "l \<in> (\<Union>fa \<in> set fileAuthors. set (take 10 (authors fa)))"
    using h by blast
  then have "l \<in> fst ` set (commitHits fileAuthors)"
    by (simp only: commitHits_logins)
  then have inl: "l \<in> fst ` set ?xs"
    unfolding xs by (simp add: image_image)
  have zero: "pointsFor l ?xs = 0"
    unfolding xs by (rule pointsFor_zero) simp
  have sc: "map_of (scores ?st) l = Some 0"
    using el inl zero by (simp add: score_fold_award)
  have "map_of (reasonSets ?st) l =
          (if eligible prAuthor l \<and> l \<in> fst ` set ?xs then Some [''recent commits'']
           else map_of (reasonSets \<lparr>scores = [], reasonSets = []\<rparr>) l)"
    by (rule reasons_fold_same) (simp_all add: xs)
  with el inl have rs: "map_of (reasonSets ?st) l = Some [''recent commits'']"
    by simp
  show "\<lparr>login = l, score = 0, reasons = [''recent commits'']\<rparr>
         \<in> set (rankCandidates mm fileAuthors prAuthor codeownersRules changedFiles latencyMap w)"
    unfolding rankCandidates_awards by (rule ranked_memberI [OF sc rs])
qed

theorem zero_weights_keep_contributors_witness:
  "commitHistory \<lparr>commitHistory = 0, codeowners = 0, latency = 0\<rparr> = 0
   \<and> codeowners \<lparr>commitHistory = 0, codeowners = 0, latency = 0\<rparr> = 0
   \<and> latency \<lparr>commitHistory = 0, codeowners = 0, latency = 0\<rparr> = 0
   \<and> \<lparr>path = ''src/app.js'', authors = [''carol'', ''dave'']\<rparr>
        \<in> set [\<lparr>path = ''src/app.js'', authors = [''carol'', ''dave'']\<rparr>]
   \<and> ''dave'' \<in> set (take 10 [''carol'', ''dave''])
   \<and> \<not> isBotLogin ''dave'' \<and> Some ''dave'' \<noteq> Some ''carol''
   \<and> rankCandidates minimatch [\<lparr>path = ''src/app.js'', authors = [''carol'', ''dave'']\<rparr>]
        (Some ''carol'') [\<lparr>pattern = ''/src/**'', owners = [''alice'']\<rparr>] [''src/app.js'']
        (Some [(''bob'', 2)]) \<lparr>commitHistory = 0, codeowners = 0, latency = 0\<rparr>
      = [\<lparr>login = ''dave'', score = 0, reasons = [''recent commits'']\<rparr>]"
  using zero_weights_keep_contributors [of "\<lparr>commitHistory = 0, codeowners = 0, latency = 0\<rparr>"
          "\<lparr>path = ''src/app.js'', authors = [''carol'', ''dave'']\<rparr>"
          "[\<lparr>path = ''src/app.js'', authors = [''carol'', ''dave'']\<rparr>]" "''dave''" "Some ''carol''"
          minimatch "[\<lparr>pattern = ''/src/**'', owners = [''alice'']\<rparr>]" "[''src/app.js'']"
          "Some [(''bob'', 2)]"]
  by (simp add: rankCandidates_def commitHistorySignal_def codeownersSignal_def
        latencySignal_def ranked_def add_def isBotLogin_examples setAdd_def upt_rec)

section \<open>Monotonicity in the weights\<close>

lemma pointsFor_scaled:
  "pointsFor l (map (\<lambda>h. (f h, g h * k, r h)) hs)
     = sum_list (map g (filter (\<lambda>h. f h = l) hs)) * k"
proof (induction hs)
  case Nil
  then show ?case by (simp add: pointsFor_def)
next
  case (Cons h hs)
  then show ?case by (simp add: pointsFor_Cons distrib_right)
qed

lemma commitHits_positive: "h \<in> set (commitHits fas) \<Longrightarrow> 0 \<le> snd h"
  by (auto simp: commitHits_def)

lemma pointsFor_commit:
  "pointsFor l (commitAwards w fas)
     = sum_list (map snd (filter (\<lambda>h. fst h = l) (commitHits fas))) * commitHistory w"
  unfolding commitAwards_def by (rule pointsFor_scaled)

lemma pointsFor_commit_mono:
  assumes "commitHistory w \<le> commitHistory w'"
  shows "pointsFor l (commitAwards w fas) \<le> pointsFor l (commitAwards w' fas)"
proof -
  have "0 \<le> sum_list (map snd (filter (\<lambda>h. fst h = l) (commitHits fas)))"
    by (rule sum_list_nonneg) (use commitHits_positive in force)
  then show ?thesis
    unfolding pointsFor_commit using assms by (rule mult_left_mono [rotated])
qed

lemma pointsFor_owner_pos:
  "0 < k \<Longrightarrow> pointsFor l (map (\<lambda>ow. (ow, k, r)) hs) = real (length (filter (\<lambda>ow. ow = l) hs)) * k"
proof (induction hs)
  case Nil
  then show ?case by (simp add: pointsFor_def)
next
  case (Cons h hs)
  then show ?case by (simp add: pointsFor_Cons distrib_right)
qed

lemma pointsFor_nonneg:
  "\<forall>x \<in> set xs. 0 \<le> fst (snd x) \<Longrightarrow> 0 \<le> pointsFor l xs"
  unfolding pointsFor_def by (rule sum_list_nonneg) auto

lemma ownerAwards_nonneg: "x \<in> set (ownerAwards mm w rules files) \<Longrightarrow> 0 \<le> fst (snd x)"
  by (auto simp: ownerAwards_def split: if_splits)

lemma pointsFor_owner_mono:
  assumes "codeowners w \<le> codeowners w'"
  shows "pointsFor l (ownerAwards mm w rules files) \<le> pointsFor l (ownerAwards mm w' rules files)"
proof (cases "codeowners w > 0 \<and> length rules \<noteq> 0")
  case True
  with assms have pos': "codeowners w' > 0" by simp
  have "real (length (filter (\<lambda>ow. ow = l) (ownerHits mm rules files {}))) * codeowners w
        \<le> real (length (filter (\<lambda>ow. ow = l) (ownerHits mm rules files {}))) * codeowners w'"
    using assms by (simp add: mult_left_mono)
  then show ?thesis
    using True pos' by (simp add: ownerAwards_def pointsFor_owner_pos)
next
  case False
  then have "pointsFor l (ownerAwards mm w rules files) = 0"
    by (auto simp: ownerAwards_def pointsFor_def)
  moreover have "0 \<le> pointsFor l (ownerAwards mm w' rules files)"
    by (rule pointsFor_nonneg) (simp add: ownerAwards_nonneg)
  ultimately show ?thesis by simp
qed

lemma latencyBonus_nonneg: "0 \<le> latencyBonusHours m"
  by (simp add: latencyBonusHours_def split: option.splits)

lemma latencyAwards_nonneg: "x \<in> set (latencyAwards w lm) \<Longrightarrow> 0 \<le> fst (snd x)"
  by (auto simp: latencyAwards_def latencyBonus_nonneg split: if_splits)

lemma pointsFor_latency_mono:
  assumes "latency w \<le> latency w'"
  shows "pointsFor l (latencyAwards w lm) \<le> pointsFor l (latencyAwards w' lm)"
proof (cases "latency w > 0")
  case True
  with assms have pos': "latency w' > 0" by simp
  have nn: "0 \<le> sum_list (map (\<lambda>e. latencyBonusHours (Some (snd e)))
                      (filter (\<lambda>e. fst e = l) (latencyHits lm)))"
    by (rule sum_list_nonneg) (auto simp: latencyBonus_nonneg)
  have "sum_list (map (\<lambda>e. latencyBonusHours (Some (snd e)))
                      (filter (\<lambda>e. fst e = l) (latencyHits lm))) * latency w
        \<le> sum_list (map (\<lambda>e. latencyBonusHours (Some (snd e)))
                      (filter (\<lambda>e. fst e = l) (latencyHits lm))) * latency w'"
    using assms nn by (rule mult_left_mono)
  then show ?thesis
    using True pos' by (simp add: latencyAwards_def pointsFor_scaled)
next
  case False
  then have "pointsFor l (latencyAwards w lm) = 0"
    by (simp add: latencyAwards_def pointsFor_def)
  moreover have "0 \<le> pointsFor l (latencyAwards w' lm)"
    by (rule pointsFor_nonneg) (simp add: latencyAwards_nonneg)
  ultimately show ?thesis by simp
qed

lemma pointsFor_awards_mono:
  assumes "commitHistory w \<le> commitHistory w'" "codeowners w \<le> codeowners w'"
    "latency w \<le> latency w'"
  shows "pointsFor l (awards mm fas rules files lm w) \<le> pointsFor l (awards mm fas rules files lm w')"
  unfolding awards_def pointsFor_append
  by (intro add_mono pointsFor_commit_mono pointsFor_owner_mono pointsFor_latency_mono assms)

lemma ownerAwards_logins_on:
  "codeowners w > 0 \<and> length rules \<noteq> 0 \<Longrightarrow>
     fst ` set (ownerAwards mm w rules files) = set (ownerHits mm rules files {})"
  by (simp add: ownerAwards_def image_image)

lemma latencyAwards_logins_on:
  "latency w > 0 \<Longrightarrow> fst ` set (latencyAwards w lm) = fst ` set (latencyHits lm)"
  by (simp add: latencyAwards_def image_image)

lemma award_logins_mono:
  assumes "codeowners w \<le> codeowners w'" "latency w \<le> latency w'"
    and "l \<in> fst ` set (awards mm fas rules files lm w)"
  shows "l \<in> fst ` set (awards mm fas rules files lm w')"
proof -
  from assms(3) consider
      (c) "l \<in> fst ` set (commitAwards w fas)"
    | (o) "l \<in> fst ` set (ownerAwards mm w rules files)"
    | (t) "l \<in> fst ` set (latencyAwards w lm)"
    by (auto simp: awards_def)
  then show ?thesis
  proof cases
    case c
    then have "l \<in> fst ` set (commitAwards w' fas)"
      by (simp only: commitAwards_logins)
    then show ?thesis by (auto simp: awards_def)
  next
    case o
    then have on: "codeowners w > 0 \<and> length rules \<noteq> 0"
      by (auto simp: ownerAwards_def split: if_splits)
    with assms(1) have on': "codeowners w' > 0 \<and> length rules \<noteq> 0" by simp
    from o have "l \<in> set (ownerHits mm rules files {})"
      unfolding ownerAwards_logins_on [OF on] .
    then have "l \<in> fst ` set (ownerAwards mm w' rules files)"
      unfolding ownerAwards_logins_on [OF on'] .
    then show ?thesis by (auto simp: awards_def)
  next
    case t
    then have on: "latency w > 0"
      by (auto simp: latencyAwards_def split: if_splits)
    with assms(2) have on': "latency w' > 0" by simp
    from t have "l \<in> fst ` set (latencyHits lm)"
      unfolding latencyAwards_logins_on [OF on] .
    then have "l \<in> fst ` set (latencyAwards w' lm)"
      unfolding latencyAwards_logins_on [OF on'] .
    then show ?thesis by (auto simp: awards_def)
  qed
qed

lemma rankCandidates_score:
  assumes "c \<in> set (rankCandidates mm fas a rules files lm w)"
  shows "eligible a (login c) \<and> login c \<in> fst ` set (awards mm fas rules files lm w)
         \<and> score c = pointsFor (login c) (awards mm fas rules files lm w)"
proof -
  let ?xs = "awards mm fas rules files lm w"
  let ?st = "fold (award a) ?xs \<lparr>scores = [], reasonSets = []\<rparr>"
  from assms obtain e where e: "e \<in> set (scores ?st)" "login c = fst e" "score c = snd e"
    unfolding rankCandidates_awards ranked_member by auto
  have "distinct (map fst (scores ?st))"
    by (rule distinct_fold_award) simp
  with e(1) have "map_of (scores ?st) (fst e) = Some (snd e)"
    by simp
  then show ?thesis
    unfolding e score_fold_award by (simp split: if_splits)
qed

lemma rankCandidates_has:
  assumes "eligible a l" "l \<in> fst ` set (awards mm fas rules files lm w)"
  shows "\<exists>c \<in> set (rankCandidates mm fas a rules files lm w).
           login c = l \<and> score c = pointsFor l (awards mm fas rules files lm w)"
proof -
  let ?xs = "awards mm fas rules files lm w"
  let ?st = "fold (award a) ?xs \<lparr>scores = [], reasonSets = []\<rparr>"
  have "map_of (scores ?st) l = Some (pointsFor l ?xs)"
    using assms by (simp add: score_fold_award)
  then have "(l, pointsFor l ?xs) \<in> set (scores ?st)"
    by (rule map_of_SomeD)
  then have "\<lparr>login = l, score = pointsFor l ?xs,
              reasons = (case map_of (reasonSets ?st) l of None \<Rightarrow> [] | Some rs \<Rightarrow> rs)\<rparr>
             \<in> set (ranked ?st)"
    unfolding ranked_member by force
  then show ?thesis
    unfolding rankCandidates_awards by (intro bexI) simp_all
qed

lemma scores_never_decrease:
  assumes "commitHistory w \<le> commitHistory w'" "codeowners w \<le> codeowners w'"
    "latency w \<le> latency w'"
    and "c \<in> set (rankCandidates mm fas a rules files lm w)"
  shows "\<exists>c' \<in> set (rankCandidates mm fas a rules files lm w').
           login c' = login c \<and> score c \<le> score c'"
proof -
  from rankCandidates_score [OF assms(4)]
  have el: "eligible a (login c)"
    and inl: "login c \<in> fst ` set (awards mm fas rules files lm w)"
    and sc: "score c = pointsFor (login c) (awards mm fas rules files lm w)"
    by simp_all
  from award_logins_mono [OF assms(2,3) inl]
  have "login c \<in> fst ` set (awards mm fas rules files lm w')" .
  from rankCandidates_has [OF el this]
  obtain c' where c': "c' \<in> set (rankCandidates mm fas a rules files lm w')"
    "login c' = login c" "score c' = pointsFor (login c) (awards mm fas rules files lm w')"
    by blast
  have "score c \<le> score c'"
    unfolding sc c'(3) by (rule pointsFor_awards_mono [OF assms(1-3)])
  with c' show ?thesis by blast
qed

section \<open>Candidates that a signal does not touch\<close>

lemma filter_mapSet_in:
  "k \<in> S \<Longrightarrow> filter (\<lambda>e. fst e \<in> S) (mapSet m k v) = mapSet (filter (\<lambda>e. fst e \<in> S) m) k v"
  by (induction m) auto

lemma filter_mapSet_out:
  "k \<notin> S \<Longrightarrow> filter (\<lambda>e. fst e \<in> S) (mapSet m k v) = filter (\<lambda>e. fst e \<in> S) m"
  by (induction m) auto

lemma map_of_filter_keys:
  "k \<in> S \<Longrightarrow> map_of (filter (\<lambda>e. fst e \<in> S) m) k = map_of m k"
  by (induction m) auto

lemma restrict_add_in:
  "l \<in> S \<Longrightarrow> restrictSt S (add a l p r st) = add a l p r (restrictSt S st)"
  by (simp add: restrictSt_def add_def Let_def filter_mapSet_in map_of_filter_keys
        map_of_mapSet split: option.splits)

lemma restrict_add_out:
  "l \<notin> S \<Longrightarrow> restrictSt S (add a l p r st) = restrictSt S st"
  by (simp add: restrictSt_def add_def Let_def filter_mapSet_out split: option.splits)

lemma restrict_award:
  "restrictSt S (award a x st)
     = (if fst x \<in> S then award a x (restrictSt S st) else restrictSt S st)"
  by (simp add: award_def restrict_add_in restrict_add_out)

lemma restrict_fold:
  "restrictSt S (fold (award a) xs st)
     = fold (award a) (filter (\<lambda>x. fst x \<in> S) xs) (restrictSt S st)"
proof (induction xs arbitrary: st)
  case Nil
  then show ?case by simp
next
  case (Cons x xs)
  have "restrictSt S (fold (award a) (x # xs) st)
          = fold (award a) (filter (\<lambda>x. fst x \<in> S) xs) (restrictSt S (award a x st))"
    by (simp add: Cons.IH)
  then show ?case
    by (simp add: restrict_award)
qed

lemma ranked_restrict:
  "filter (\<lambda>c. login c \<in> S) (ranked st) = ranked (restrictSt S st)"
proof -
  have "filter (\<lambda>c. login c \<in> S) (ranked st) =
          map (\<lambda>e. \<lparr>login = fst e, score = snd e,
                     reasons = (case map_of (reasonSets st) (fst e) of None \<Rightarrow> [] | Some rs \<Rightarrow> rs)\<rparr>)
              (sort_key (\<lambda>e. - snd e) (filter (\<lambda>e. fst e \<in> S) (scores st)))"
    by (simp add: ranked_def filter_map comp_def filter_sort)
  also have "\<dots> =
          map (\<lambda>e. \<lparr>login = fst e, score = snd e,
                     reasons = (case map_of (filter (\<lambda>e. fst e \<in> S) (reasonSets st)) (fst e) of
                                  None \<Rightarrow> [] | Some rs \<Rightarrow> rs)\<rparr>)
              (sort_key (\<lambda>e. - snd e) (filter (\<lambda>e. fst e \<in> S) (scores st)))"
    by (rule map_cong) (auto simp: map_of_filter_keys)
  finally show ?thesis
    by (simp add: ranked_def restrictSt_def)
qed

lemma rankCandidates_restrict:
  "filter (\<lambda>c. login c \<in> S) (rankCandidates mm fas a rules files lm w)
     = ranked (fold (award a) (filter (\<lambda>x. fst x \<in> S) (awards mm fas rules files lm w))
                \<lparr>scores = [], reasonSets = []\<rparr>)"
proof -
  have "restrictSt S \<lparr>scores = [], reasonSets = []\<rparr> = \<lparr>scores = [], reasonSets = []\<rparr>"
    by (simp add: restrictSt_def)
  then show ?thesis
    by (simp add: rankCandidates_awards ranked_restrict restrict_fold)
qed

lemma filter_no_login:
  "S \<inter> fst ` set xs = {} \<Longrightarrow> filter (\<lambda>x. fst x \<in> S) xs = []"
  by (auto simp: filter_empty_conv)

lemma order_kept_commit:
  assumes "S \<inter> (\<Union>fa \<in> set fas. set (take 10 (authors fa))) = {}"
  shows "filter (\<lambda>c. login c \<in> S)
           (rankCandidates mm fas a rules files lm (w\<lparr>commitHistory := x\<rparr>))
         = filter (\<lambda>c. login c \<in> S) (rankCandidates mm fas a rules files lm w)"
proof -
  have "\<And>v. filter (\<lambda>x. fst x \<in> S) (commitAwards v fas) = []"
    by (rule filter_no_login) (simp only: commitAwards_logins assms)
  then have "filter (\<lambda>x. fst x \<in> S) (awards mm fas rules files lm (w\<lparr>commitHistory := x\<rparr>))
             = filter (\<lambda>x. fst x \<in> S) (awards mm fas rules files lm w)"
    by (simp add: awards_def ownerAwards_def latencyAwards_def)
  then show ?thesis
    by (simp only: rankCandidates_restrict)
qed

lemma order_kept_codeowners:
  assumes "S \<inter> (\<Union>f \<in> set files. set (ownersForFile mm rules f)) = {}"
  shows "filter (\<lambda>c. login c \<in> S)
           (rankCandidates mm fas a rules files lm (w\<lparr>codeowners := x\<rparr>))
         = filter (\<lambda>c. login c \<in> S) (rankCandidates mm fas a rules files lm w)"
proof -
  have "\<And>v. S \<inter> fst ` set (ownerAwards mm v rules files) = {}"
    using assms ownerAwards_logins [of mm _ rules files] by blast
  then have "\<And>v. filter (\<lambda>x. fst x \<in> S) (ownerAwards mm v rules files) = []"
    by (rule filter_no_login)
  then have "filter (\<lambda>x. fst x \<in> S) (awards mm fas rules files lm (w\<lparr>codeowners := x\<rparr>))
             = filter (\<lambda>x. fst x \<in> S) (awards mm fas rules files lm w)"
    by (simp add: awards_def commitAwards_def latencyAwards_def)
  then show ?thesis
    by (simp only: rankCandidates_restrict)
qed

lemma order_kept_latency:
  assumes "S \<inter> fst ` set (latencyHits lm) = {}"
  shows "filter (\<lambda>c. login c \<in> S)
           (rankCandidates mm fas a rules files lm (w\<lparr>latency := x\<rparr>))
         = filter (\<lambda>c. login c \<in> S) (rankCandidates mm fas a rules files lm w)"
proof -
  have "\<And>v. S \<inter> fst ` set (latencyAwards v lm) = {}"
    using assms latencyAwards_logins [of _ lm] by blast
  then have "\<And>v. filter (\<lambda>x. fst x \<in> S) (latencyAwards v lm) = []"
    by (rule filter_no_login)
  then have "filter (\<lambda>x. fst x \<in> S) (awards mm fas rules files lm (w\<lparr>latency := x\<rparr>))
             = filter (\<lambda>x. fst x \<in> S) (awards mm fas rules files lm w)"
    by (simp add: awards_def commitAwards_def ownerAwards_def)
  then show ?thesis
    by (simp only: rankCandidates_restrict)
qed

lemma pair_filter: "(\<lambda>c. login c = a \<or> login c = b) = (\<lambda>c. login c \<in> {a, b})"
  by auto

text \<open>
  Claim C7. Scores are monotone in the weights. When no weight decreases (in
  particular when one weight grows and the other two stay), every candidate of the
  result is still a candidate and its score has not decreased. And when one weight
  is changed, two candidates that get no award from the signal of that weight keep
  their entries and their relative order: the result cut down to the two of them is
  the same list. A login gets no award from the contributor signal when it is not
  among the first ten contributors of any file, none from the ownership signal when it
  owns no changed file, none from the latency signal when it has no latency entry
  with a positive bonus.
\<close>

theorem scores_monotone_in_weights:
  "(commitHistory w \<le> commitHistory w' \<and> codeowners w \<le> codeowners w' \<and> latency w \<le> latency w'
      \<and> c \<in> set (rankCandidates mm fileAuthors prAuthor codeownersRules changedFiles latencyMap w)
     \<longrightarrow> (\<exists>c' \<in> set (rankCandidates mm fileAuthors prAuthor codeownersRules changedFiles latencyMap w').
            login c' = login c \<and> score c \<le> score c'))
   \<and> ((\<forall>fa \<in> set fileAuthors. a1 \<notin> set (take 10 (authors fa)) \<and> b1 \<notin> set (take 10 (authors fa)))
     \<longrightarrow> filter (\<lambda>c. login c = a1 \<or> login c = b1)
           (rankCandidates mm fileAuthors prAuthor codeownersRules changedFiles latencyMap
              (w\<lparr>commitHistory := x1\<rparr>))
         = filter (\<lambda>c. login c = a1 \<or> login c = b1)
             (rankCandidates mm fileAuthors prAuthor codeownersRules changedFiles latencyMap w))
   \<and> ((\<forall>f \<in> set changedFiles. a2 \<notin> set (ownersForFile mm codeownersRules f)
                                 \<and> b2 \<notin> set (ownersForFile mm codeownersRules f))
     \<longrightarrow> filter (\<lambda>c. login c = a2 \<or> login c = b2)
           (rankCandidates mm fileAuthors prAuthor codeownersRules changedFiles latencyMap
              (w\<lparr>codeowners := x2\<rparr>))
         = filter (\<lambda>c. login c = a2 \<or> login c = b2)
             (rankCandidates mm fileAuthors prAuthor codeownersRules changedFiles latencyMap w))
   \<and> ((\<forall>lm. latencyMap = Some lm \<longrightarrow>
          (\<forall>e \<in> set lm. latencyBonusHours (Some (snd e)) > 0 \<longrightarrow> fst e \<noteq> a3 \<and> fst e \<noteq> b3))
     \<longrightarrow> filter (\<lambda>c. login c = a3 \<or> login c = b3)
           (rankCandidates mm fileAuthors prAuthor codeownersRules changedFiles latencyMap
              (w\<lparr>latency := x3\<rparr>))
         = filter (\<lambda>c. login c = a3 \<or> login c = b3)
             (rankCandidates mm fileAuthors prAuthor codeownersRules changedFiles latencyMap w))"
proof (intro conjI impI)
  assume "commitHistory w \<le> commitHistory w' \<and> codeowners w \<le> codeowners w' \<and> latency w \<le> latency w'
      \<and> c \<in> set (rankCandidates mm fileAuthors prAuthor codeownersRules changedFiles latencyMap w)"
  then show "\<exists>c' \<in> set (rankCandidates mm fileAuthors prAuthor codeownersRules changedFiles latencyMap w').
            login c' = login c \<and> score c \<le> score c'"
    using scores_never_decrease [of w w' c mm fileAuthors prAuthor codeownersRules changedFiles latencyMap]
    by simp
next
  assume "\<forall>fa \<in> set fileAuthors. a1 \<notin> set (take 10 (authors fa)) \<and> b1 \<notin> set (take 10 (authors fa))"
  then have "{a1, b1} \<inter> (\<Union>fa \<in> set fileAuthors. set (take 10 (authors fa))) = {}"
    by blast
  then show "filter (\<lambda>c. login c = a1 \<or> login c = b1)
           (rankCandidates mm fileAuthors prAuthor codeownersRules changedFiles latencyMap
              (w\<lparr>commitHistory := x1\<rparr>))
         = filter (\<lambda>c. login c = a1 \<or> login c = b1)
             (rankCandidates mm fileAuthors prAuthor codeownersRules changedFiles latencyMap w)"
    unfolding pair_filter by (rule order_kept_commit)
next
  assume "\<forall>f \<in> set changedFiles. a2 \<notin> set (ownersForFile mm codeownersRules f)
                                 \<and> b2 \<notin> set (ownersForFile mm codeownersRules f)"
  then have "{a2, b2} \<inter> (\<Union>f \<in> set changedFiles. set (ownersForFile mm codeownersRules f)) = {}"
    by blast
  then show "filter (\<lambda>c. login c = a2 \<or> login c = b2)
           (rankCandidates mm fileAuthors prAuthor codeownersRules changedFiles latencyMap
              (w\<lparr>codeowners := x2\<rparr>))
         = filter (\<lambda>c. login c = a2 \<or> login c = b2)
             (rankCandidates mm fileAuthors prAuthor codeownersRules changedFiles latencyMap w)"
    unfolding pair_filter by (rule order_kept_codeowners)
next
  assume h: "\<forall>lm. latencyMap = Some lm \<longrightarrow>
          (\<forall>e \<in> set lm. latencyBonusHours (Some (snd e)) > 0 \<longrightarrow> fst e \<noteq> a3 \<and> fst e \<noteq> b3)"
  have "{a3, b3} \<inter> fst ` set (latencyHits latencyMap) = {}"
  proof (cases latencyMap)
    case None
    then show ?thesis by (simp add: latencyHits_def)
  next
    case (Some lm)
    with h have "\<forall>e \<in> set lm. latencyBonusHours (Some (snd e)) > 0 \<longrightarrow> fst e \<noteq> a3 \<and> fst e \<noteq> b3"
      by blast
    then show ?thesis
      unfolding latencyHits_def Some by auto
  qed
  then show "filter (\<lambda>c. login c = a3 \<or> login c = b3)
           (rankCandidates mm fileAuthors prAuthor codeownersRules changedFiles latencyMap
              (w\<lparr>latency := x3\<rparr>))
         = filter (\<lambda>c. login c = a3 \<or> login c = b3)
             (rankCandidates mm fileAuthors prAuthor codeownersRules changedFiles latencyMap w)"
    unfolding pair_filter by (rule order_kept_latency)
qed

lemma three_signals_example:
  "rankCandidates minimatch [\<lparr>path = ''src/app.js'', authors = [''dave'']\<rparr>] (Some ''carol'')
     [\<lparr>pattern = ''/src/**'', owners = [''alice'']\<rparr>] [''src/app.js''] (Some [(''bob'', 2)])
     \<lparr>commitHistory = wc, codeowners = wo, latency = wl\<rparr>
   = ranked (latencySignal (Some ''carol'') \<lparr>commitHistory = wc, codeowners = wo, latency = wl\<rparr>
              (Some [(''bob'', 2)])
              (codeownersSignal minimatch (Some ''carol'')
                 \<lparr>commitHistory = wc, codeowners = wo, latency = wl\<rparr>
                 [\<lparr>pattern = ''/src/**'', owners = [''alice'']\<rparr>] [''src/app.js'']
                 \<lparr>scores = [(''dave'', 3 * wc)], reasonSets = [(''dave'', [''recent commits''])]\<rparr>))"
  by (simp add: rankCandidates_def commitHistorySignal_def add_def isBotLogin_examples
        setAdd_def upt_rec)

lemma three_signals_values:
  "rankCandidates minimatch [\<lparr>path = ''src/app.js'', authors = [''dave'']\<rparr>] (Some ''carol'')
     [\<lparr>pattern = ''/src/**'', owners = [''alice'']\<rparr>] [''src/app.js''] (Some [(''bob'', 2)])
     \<lparr>commitHistory = 1, codeowners = 4, latency = 1\<rparr>
   = [\<lparr>login = ''bob'', score = 6, reasons = [''fast reviewer (~2h median)'']\<rparr>,
      \<lparr>login = ''alice'', score = 4, reasons = [''CODEOWNERS'']\<rparr>,
      \<lparr>login = ''dave'', score = 3, reasons = [''recent commits'']\<rparr>]"
  "rankCandidates minimatch [\<lparr>path = ''src/app.js'', authors = [''dave'']\<rparr>] (Some ''carol'')
     [\<lparr>pattern = ''/src/**'', owners = [''alice'']\<rparr>] [''src/app.js''] (Some [(''bob'', 2)])
     \<lparr>commitHistory = 2, codeowners = 5, latency = 3\<rparr>
   = [\<lparr>login = ''bob'', score = 18, reasons = [''fast reviewer (~2h median)'']\<rparr>,
      \<lparr>login = ''dave'', score = 6, reasons = [''recent commits'']\<rparr>,
      \<lparr>login = ''alice'', score = 5, reasons = [''CODEOWNERS'']\<rparr>]"
  "rankCandidates minimatch [\<lparr>path = ''src/app.js'', authors = [''dave'']\<rparr>] (Some ''carol'')
     [\<lparr>pattern = ''/src/**'', owners = [''alice'']\<rparr>] [''src/app.js''] (Some [(''bob'', 2)])
     \<lparr>commitHistory = 5, codeowners = 4, latency = 1\<rparr>
   = [\<lparr>login = ''dave'', score = 15, reasons = [''recent commits'']\<rparr>,
      \<lparr>login = ''bob'', score = 6, reasons = [''fast reviewer (~2h median)'']\<rparr>,
      \<lparr>login = ''alice'', score = 4, reasons = [''CODEOWNERS'']\<rparr>]"
  "rankCandidates minimatch [\<lparr>path = ''src/app.js'', authors = [''dave'']\<rparr>] (Some ''carol'')
     [\<lparr>pattern = ''/src/**'', owners = [''alice'']\<rparr>] [''src/app.js''] (Some [(''bob'', 2)])
     \<lparr>commitHistory = 1, codeowners = 8, latency = 1\<rparr>
   = [\<lparr>login = ''alice'', score = 8, reasons = [''CODEOWNERS'']\<rparr>,
      \<lparr>login = ''bob'', score = 6, reasons = [''fast reviewer (~2h median)'']\<rparr>,
      \<lparr>login = ''dave'', score = 3, reasons = [''recent commits'']\<rparr>]"
  "rankCandidates minimatch [\<lparr>path = ''src/app.js'', authors = [''dave'']\<rparr>] (Some ''carol'')
     [\<lparr>pattern = ''/src/**'', owners = [''alice'']\<rparr>] [''src/app.js''] (Some [(''bob'', 2)])
     \<lparr>commitHistory = 1, codeowners = 4, latency = 3\<rparr>
   = [\<lparr>login = ''bob'', score = 18, reasons = [''fast reviewer (~2h median)'']\<rparr>,
      \<lparr>login = ''alice'', score = 4, reasons = [''CODEOWNERS'']\<rparr>,
      \<lparr>login = ''dave'', score = 3, reasons = [''recent commits'']\<rparr>]"
  by (simp_all add: three_signals_example codeownersSignal_def latencySignal_def ranked_def
        ownersForFile_def normalizeCodeownersPattern_def startsWith_def minimatch_examples
        add_def isBotLogin_examples setAdd_def latencyBonusHours_def fast_reviewer_reason)

theorem scores_monotone_in_weights_witness:
  "\<lparr>login = ''dave'', score = 3, reasons = [''recent commits'']\<rparr>
     \<in> set (rankCandidates minimatch [\<lparr>path = ''src/app.js'', authors = [''dave'']\<rparr>] (Some ''carol'')
              [\<lparr>pattern = ''/src/**'', owners = [''alice'']\<rparr>] [''src/app.js''] (Some [(''bob'', 2)])
              \<lparr>commitHistory = 1, codeowners = 4, latency = 1\<rparr>)
   \<and> \<lparr>login = ''dave'', score = 6, reasons = [''recent commits'']\<rparr>
     \<in> set (rankCandidates minimatch [\<lparr>path = ''src/app.js'', authors = [''dave'']\<rparr>] (Some ''carol'')
              [\<lparr>pattern = ''/src/**'', owners = [''alice'']\<rparr>] [''src/app.js''] (Some [(''bob'', 2)])
              \<lparr>commitHistory = 2, codeowners = 5, latency = 3\<rparr>)
   \<and> filter (\<lambda>c. login c = ''alice'' \<or> login c = ''bob'')
        (rankCandidates minimatch [\<lparr>path = ''src/app.js'', authors = [''dave'']\<rparr>] (Some ''carol'')
           [\<lparr>pattern = ''/src/**'', owners = [''alice'']\<rparr>] [''src/app.js''] (Some [(''bob'', 2)])
           (\<lparr>commitHistory = 1, codeowners = 4, latency = 1\<rparr>\<lparr>commitHistory := 5\<rparr>))
      = [\<lparr>login = ''bob'', score = 6, reasons = [''fast reviewer (~2h median)'']\<rparr>,
         \<lparr>login = ''alice'', score = 4, reasons = [''CODEOWNERS'']\<rparr>]
   \<and> filter (\<lambda>c. login c = ''dave'' \<or> login c = ''bob'')
        (rankCandidates minimatch [\<lparr>path = ''src/app.js'', authors = [''dave'']\<rparr>] (Some ''carol'')
           [\<lparr>pattern = ''/src/**'', owners = [''alice'']\<rparr>] [''src/app.js''] (Some [(''bob'', 2)])
           (\<lparr>commitHistory = 1, codeowners = 4, latency = 1\<rparr>\<lparr>codeowners := 8\<rparr>))
      = [\<lparr>login = ''bob'', score = 6, reasons = [''fast reviewer (~2h median)'']\<rparr>,
         \<lparr>login = ''dave'', score = 3, reasons = [''recent commits'']\<rparr>]
   \<and> filter (\<lambda>c. login c = ''dave'' \<or> login c = ''alice'')
        (rankCandidates minimatch [\<lparr>path = ''src/app.js'', authors = [''dave'']\<rparr>] (Some ''carol'')
           [\<lparr>pattern = ''/src/**'', owners = [''alice'']\<rparr>] [''src/app.js''] (Some [(''bob'', 2)])
           (\<lparr>commitHistory = 1, codeowners = 4, latency = 1\<rparr>\<lparr>latency := 3\<rparr>))
      = [\<lparr>login = ''alice'', score = 4, reasons = [''CODEOWNERS'']\<rparr>,
         \<lparr>login = ''dave'', score = 3, reasons = [''recent commits'']\<rparr>]"
  using scores_monotone_in_weights [of
          "\<lparr>commitHistory = 1, codeowners = 4, latency = 1\<rparr>"
          "\<lparr>commitHistory = 2, codeowners = 5, latency = 3\<rparr>"
          "\<lparr>login = ''dave'', score = 3, reasons = [''recent commits'']\<rparr>"
          minimatch "[\<lparr>path = ''src/app.js'', authors = [''dave'']\<rparr>]" "Some ''carol''"
          "[\<lparr>pattern = ''/src/**'', owners = [''alice'']\<rparr>]" "[''src/app.js'']"
          "Some [(''bob'', 2)]"
          "''alice''" "''bob''" 5 "''dave''" "''bob''" 8 "''dave''" "''alice''" 3]
  by (simp add: three_signals_values)

end
